theory Spec2Isabelle
  imports Complex_Main "HOL-Library.Log_Nat"
begin

section \<open>Data model\<close>

text \<open>
  The embedding follows the TypeScript sources of the trading engine
  (models/order.ts, models/orderbook.ts, models/trade.ts, services/matchingEngine.ts,
  services/orderBookService.ts, validator/orderValidator.ts, utils/decimal.ts).

  \<^item> A \<open>DecimalValue\<close> is an immutable wrapper around a decimal of decimal.js; every
    operation returns a new value, so sharing one between an order, an entry and a trade
    is harmless. A decimal is a finite value, \<open>Infinity\<close>, \<open>-Infinity\<close> or \<open>NaN\<close>;
    \<open>plus\<close> and \<open>minus\<close> round their result to the 20 significant digits that
    utils/decimal.ts configures (rounding mode 4, half up) and keep it within the
    exponent range of decimal.js.
  \<^item> The canonical string of a price, which keys the \<open>priceLevels\<close> map, is an
    injective rendering of the value (\<open>NaN\<close> and the infinities have their own strings);
    the model keys the map by the value itself.
  \<^item> A JavaScript \<open>Map\<close> is an association list in insertion order.
  \<^item> \<open>Date.now()\<close> is an oracle \<open>now\<close>: the \<open>k\<close>-th read of the clock returns
    \<open>now k\<close>, and the state counts the reads made so far (field \<open>reads\<close>).
  \<^item> Identifiers, sides and operation types are the strings the code compares; a
    \<open>trade_id\<close> is the number the code renders as a string.
  \<^item> Objects mutated in place (a level found in the map, a book held by the service)
    are written back at their own key, which keeps their position in the map.
\<close>

subsection \<open>Numbers\<close>

text \<open>
  A JavaScript number and a decimal of decimal.js have the same shape: a finite value,
  one of the two infinities, or \<open>NaN\<close>. The finite values are rationals (the doubles
  among them for a JavaScript number, the decimal fractions for a decimal); the two zeros
  are one value, which no operation below tells apart.
\<close>

datatype number = NaN | NegInfinity | Finite rat | Infinity

type_synonym DecimalValue = number

text \<open>
  \<open>comparedTo\<close> is \<open>Decimal.cmp\<close>: 1, 0 or -1, and \<open>NaN\<close> (here \<open>None\<close>) as soon as
  one side is \<open>NaN\<close>. The comparisons are written as decimal.js derives them from it; on
  JavaScript numbers \<open>>\<close> and \<open><=\<close> give the same answers.
\<close>

fun comparedTo :: "number \<Rightarrow> number \<Rightarrow> int option" where
  "comparedTo NaN b = None"
| "comparedTo a NaN = None"
| "comparedTo (Finite x) (Finite y) = Some (if x < y then - 1 else if x = y then 0 else 1)"
| "comparedTo Infinity Infinity = Some 0"
| "comparedTo NegInfinity NegInfinity = Some 0"
| "comparedTo Infinity b = Some 1"
| "comparedTo NegInfinity b = Some (- 1)"
| "comparedTo a Infinity = Some (- 1)"
| "comparedTo a NegInfinity = Some 1"

definition gt :: "number \<Rightarrow> number \<Rightarrow> bool" where
  "gt a b = (case comparedTo a b of None \<Rightarrow> False | Some k \<Rightarrow> 0 < k)"

definition lt :: "number \<Rightarrow> number \<Rightarrow> bool" where
  "lt a b = (case comparedTo a b of None \<Rightarrow> False | Some k \<Rightarrow> k < 0)"

definition gte :: "number \<Rightarrow> number \<Rightarrow> bool" where
  "gte a b = (case comparedTo a b of None \<Rightarrow> False | Some k \<Rightarrow> k = 1 \<or> k = 0)"

definition lte :: "number \<Rightarrow> number \<Rightarrow> bool" where
  "lte a b = (case comparedTo a b of None \<Rightarrow> False | Some k \<Rightarrow> k < 1)"

definition isZero :: "number \<Rightarrow> bool" where
  "isZero a = (a = Finite 0)"

definition isNaN :: "number \<Rightarrow> bool" where
  "isNaN a = (a = NaN)"

definition ZERO :: DecimalValue where
  "ZERO = Finite 0"

text \<open>
  \<open>finalise\<close> is what decimal.js applies to the exact result of \<open>plus\<close> and \<open>minus\<close>:
  the value is rounded to 20 significant digits, a tie going away from zero, and a result
  whose decimal exponent lies beyond \<open>maxE\<close> becomes an infinity or zero.
  \<open>exponent10 x\<close> is the decimal exponent of a non-zero \<open>x\<close>, the \<open>e\<close> with
  \<open>10^e \<le> |x| < 10^(e+1)\<close>.
\<close>

definition maxE :: nat where
  "maxE = 9000000000000000"

definition exponent10 :: "rat \<Rightarrow> int" where
  "exponent10 x =
     (if 1 \<le> \<bar>x\<bar> then int (floorlog 10 (nat \<lfloor>\<bar>x\<bar>\<rfloor>)) - 1
      else - int (floorlog 10 (nat \<lceil>1 / \<bar>x\<bar>\<rceil> - 1)))"

definition roundHalfUp :: "rat \<Rightarrow> rat" where
  "roundHalfUp x =
     (let ulp = 10 powi (exponent10 x - 19)
      in sgn x * of_int \<lfloor>\<bar>x\<bar> / ulp + 1 / 2\<rfloor> * ulp)"

definition finalise :: "rat \<Rightarrow> number" where
  "finalise x =
     (if x = 0 then Finite 0
      else let r = roundHalfUp x
           in if int maxE < exponent10 r then (if 0 < x then Infinity else NegInfinity)
              else if exponent10 r < - int maxE then Finite 0
              else Finite r)"

text \<open>\<open>DecimalValue.minus\<close>, \<open>DecimalValue.plus\<close> and the static \<open>DecimalValue.min\<close>.\<close>

fun minus_dec :: "DecimalValue \<Rightarrow> DecimalValue \<Rightarrow> DecimalValue" where
  "minus_dec NaN b = NaN"
| "minus_dec a NaN = NaN"
| "minus_dec (Finite x) (Finite y) = finalise (x - y)"
| "minus_dec Infinity Infinity = NaN"
| "minus_dec NegInfinity NegInfinity = NaN"
| "minus_dec Infinity b = Infinity"
| "minus_dec NegInfinity b = NegInfinity"
| "minus_dec a Infinity = NegInfinity"
| "minus_dec a NegInfinity = Infinity"

fun plus_dec :: "DecimalValue \<Rightarrow> DecimalValue \<Rightarrow> DecimalValue" where
  "plus_dec NaN b = NaN"
| "plus_dec a NaN = NaN"
| "plus_dec (Finite x) (Finite y) = finalise (x + y)"
| "plus_dec Infinity NegInfinity = NaN"
| "plus_dec NegInfinity Infinity = NaN"
| "plus_dec Infinity b = Infinity"
| "plus_dec NegInfinity b = NegInfinity"
| "plus_dec a Infinity = Infinity"
| "plus_dec a NegInfinity = NegInfinity"

definition DecimalValue_min :: "DecimalValue \<Rightarrow> DecimalValue \<Rightarrow> DecimalValue" where
  "DecimalValue_min a b = (if lt a b then a else b)"

subsection \<open>Records\<close>

type_synonym clock = "nat \<Rightarrow> int"

record RawOrder =
  raw_type_op :: string
  raw_account_id :: string
  raw_amount :: string
  raw_order_id :: string
  raw_pair :: string
  raw_limit_price :: string
  raw_side :: string

record Order =
  type_op :: string
  account_id :: string
  amount :: DecimalValue
  order_id :: string
  pair :: string
  limit_price :: DecimalValue
  side :: string
  timestamp :: int

record OrderBookEntry =
  entry_order_id :: string
  entry_account_id :: string
  entry_amount :: DecimalValue
  entry_limit_price :: DecimalValue
  entry_timestamp :: int

record PriceLevel =
  price :: DecimalValue
  orders :: "OrderBookEntry list"
  totalVolume :: DecimalValue

record OrderBookSide =
  priceLevels :: "(DecimalValue \<times> PriceLevel) list"
  prices :: "DecimalValue list"

record OrderBook =
  book_pair :: string
  bids :: OrderBookSide
  asks :: OrderBookSide

record Trade =
  trade_id :: nat
  trade_pair :: string
  maker_order_id :: string
  taker_order_id :: string
  maker_account_id :: string
  taker_account_id :: string
  trade_amount :: DecimalValue
  trade_price :: DecimalValue
  trade_timestamp :: int

text \<open>The matching engine's own state is \<open>nextTradeId\<close>; \<open>reads\<close> counts the clock reads.\<close>

record MatchingEngine =
  nextTradeId :: nat
  reads :: nat

record OrderBookService =
  orderBooks :: "(string \<times> OrderBook) list"
  matchingEngine :: MatchingEngine
  trades :: "Trade list"

datatype reason = MissingFields | InvalidSide | InvalidAmount | InvalidPrice | InvalidPair

datatype error = ValidationError reason | OrderProcessingError

section \<open>JavaScript containers\<close>

definition Map_get :: "'k \<Rightarrow> ('k \<times> 'v) list \<Rightarrow> 'v option" where
  "Map_get k m = map_of m k"

definition Map_has :: "'k \<Rightarrow> ('k \<times> 'v) list \<Rightarrow> bool" where
  "Map_has k m = (Map_get k m \<noteq> None)"

text \<open>\<open>Map.set\<close> keeps the position of a key that is present and appends a new one.\<close>

fun Map_set :: "'k \<Rightarrow> 'v \<Rightarrow> ('k \<times> 'v) list \<Rightarrow> ('k \<times> 'v) list" where
  "Map_set k v [] = [(k, v)]"
| "Map_set k v (kv # m) = (if fst kv = k then (k, v) # m else kv # Map_set k v m)"

definition Map_delete :: "'k \<Rightarrow> ('k \<times> 'v) list \<Rightarrow> ('k \<times> 'v) list" where
  "Map_delete k m = filter (\<lambda>kv. fst kv \<noteq> k) m"

text \<open>\<open>Array.findIndex\<close>: the first index whose element satisfies the predicate
  (\<open>None\<close> for the source's \<open>-1\<close>).\<close>

fun findIndex :: "('a \<Rightarrow> bool) \<Rightarrow> 'a list \<Rightarrow> nat option" where
  "findIndex P [] = None"
| "findIndex P (x # xs) =
     (if P x then Some 0 else (case findIndex P xs of None \<Rightarrow> None | Some i \<Rightarrow> Some (Suc i)))"

text \<open>\<open>xs.splice(i, 1)\<close>: the array without its element at index \<open>i\<close>.\<close>

definition splice1 :: "nat \<Rightarrow> 'a list \<Rightarrow> 'a list" where
  "splice1 i xs = take i xs @ drop (Suc i) xs"

text \<open>
  \<open>Array.prototype.sort\<close> with a comparison function, as a stable insertion sort: an
  element goes before the first element it compares below. A comparison that answers
  \<open>NaN\<close> counts as 0, as the language prescribes. Whenever the comparison is a total
  preorder on the elements (no \<open>NaN\<close> among them) this is the result of every stable
  sort.
\<close>

fun insertSorted :: "('a \<Rightarrow> 'a \<Rightarrow> int option) \<Rightarrow> 'a \<Rightarrow> 'a list \<Rightarrow> 'a list" where
  "insertSorted cmp x [] = [x]"
| "insertSorted cmp x (y # ys) =
     (if (case cmp x y of None \<Rightarrow> False | Some k \<Rightarrow> k < 0) then x # y # ys
      else y # insertSorted cmp x ys)"

definition Array_sort :: "('a \<Rightarrow> 'a \<Rightarrow> int option) \<Rightarrow> 'a list \<Rightarrow> 'a list" where
  "Array_sort cmp xs = foldl (\<lambda>sorted x. insertSorted cmp x sorted) [] xs"

section \<open>Order book (models/orderbook.ts)\<close>

definition createOrderBookSide :: OrderBookSide where
  "createOrderBookSide = \<lparr>priceLevels = [], prices = []\<rparr>"

definition createOrderBook :: "string \<Rightarrow> OrderBook" where
  "createOrderBook p = \<lparr>book_pair = p, bids = createOrderBookSide, asks = createOrderBookSide\<rparr>"

definition getOrderBookSide :: "OrderBook \<Rightarrow> string \<Rightarrow> OrderBookSide" where
  "getOrderBookSide orderBook sd = (if sd = ''BUY'' then bids orderBook else asks orderBook)"

section \<open>Matching engine (services/matchingEngine.ts)\<close>

text \<open>
  One iteration of the loop of \<open>matchAtPriceLevel\<close> against the head \<open>matchOrder\<close> of the
  level's queue (the rest of the queue is \<open>rest\<close>): the fill, the two decrements, the
  trade, and the dequeue of a maker whose amount is zero or negative.
\<close>

definition fill :: "clock \<Rightarrow> string \<Rightarrow> Order \<Rightarrow> PriceLevel \<Rightarrow> OrderBookEntry \<Rightarrow> OrderBookEntry list \<Rightarrow>
    MatchingEngine \<Rightarrow> Trade \<times> Order \<times> PriceLevel \<times> MatchingEngine" where
  "fill now pr order priceLevel matchOrder rest eng =
     (let matchAmount = DecimalValue_min (amount order) (entry_amount matchOrder);
          order' = order\<lparr>amount := minus_dec (amount order) matchAmount\<rparr>;
          matchOrder' = matchOrder\<lparr>entry_amount := minus_dec (entry_amount matchOrder) matchAmount\<rparr>;
          trade = \<lparr>trade_id = nextTradeId eng,
                   trade_pair = pr,
                   maker_order_id = entry_order_id matchOrder',
                   taker_order_id = order_id order',
                   maker_account_id = entry_account_id matchOrder',
                   taker_account_id = account_id order',
                   trade_amount = matchAmount,
                   trade_price = price priceLevel,
                   trade_timestamp = now (reads eng)\<rparr>;
          eng' = eng\<lparr>nextTradeId := Suc (nextTradeId eng), reads := Suc (reads eng)\<rparr>;
          orders' = (if isZero (entry_amount matchOrder') \<or> lt (entry_amount matchOrder') ZERO
                     then rest else matchOrder' # rest)
      in (trade, order',
          priceLevel\<lparr>orders := orders',
                      totalVolume := minus_dec (totalVolume priceLevel) matchAmount\<rparr>,
          eng'))"

text \<open>
  Comparisons at the constructors, and the progress of one fill: either the maker at the
  head of the queue leaves it, or the taker's amount is no longer above zero, or (for a
  maker at \<open>-Infinity\<close>) the head becomes \<open>NaN\<close> and the next fill ends the loop.
\<close>

lemma gt_simps [simp]:
  "gt (Finite x) (Finite y) = (y < x)" "gt NaN b = False" "gt a NaN = False"
  "gt Infinity (Finite y) = True" "gt (Finite x) Infinity = False" "gt Infinity Infinity = False"
  "gt NegInfinity b = False" "gt (Finite x) NegInfinity = True" "gt Infinity NegInfinity = True"
  by (cases a; cases b; simp add: gt_def)+

lemma lt_simps [simp]:
  "lt (Finite x) (Finite y) = (x < y)" "lt NaN b = False" "lt a NaN = False"
  "lt Infinity b = False" "lt (Finite x) Infinity = True" "lt NegInfinity Infinity = True"
  "lt NegInfinity (Finite y) = True" "lt a NegInfinity = False"
  by (cases a; cases b; simp add: lt_def)+

lemma gte_simps [simp]:
  "gte (Finite x) (Finite y) = (y \<le> x)" "gte NaN b = False" "gte a NaN = False"
  "gte Infinity (Finite y) = True" "gte (Finite x) Infinity = False" "gte Infinity Infinity = True"
  "gte NegInfinity (Finite y) = False" "gte (Finite x) NegInfinity = True"
  "gte Infinity NegInfinity = True" "gte NegInfinity Infinity = False"
  "gte NegInfinity NegInfinity = True"
  by (cases a; cases b; auto simp add: gte_def)+

lemma lte_simps [simp]:
  "lte (Finite x) (Finite y) = (x \<le> y)" "lte NaN b = False" "lte a NaN = False"
  "lte Infinity (Finite y) = False" "lte (Finite x) Infinity = True" "lte Infinity Infinity = True"
  "lte NegInfinity (Finite y) = True" "lte (Finite x) NegInfinity = False"
  "lte Infinity NegInfinity = False" "lte NegInfinity Infinity = True"
  "lte NegInfinity NegInfinity = True"
  by (cases a; cases b; auto simp add: lte_def)+

lemma isZero_simps [simp]:
  "isZero (Finite x) = (x = 0)" "isZero NaN = False" "isZero Infinity = False"
  "isZero NegInfinity = False"
  by (simp_all add: isZero_def)

lemma isNaN_simps [simp]:
  "isNaN (Finite x) = False" "isNaN NaN = True" "isNaN Infinity = False"
  "isNaN NegInfinity = False"
  by (simp_all add: isNaN_def)

lemma finalise_0 [simp]: "finalise 0 = Finite 0"
  by (simp add: finalise_def)

lemma fill_progress:
  assumes "fill now pr order lvl m rest eng = (t, order', lvl', eng')" and "gt (amount order) ZERO"
  shows "2 * length (orders lvl') +
           (if gt (amount order') ZERO
            then (case orders lvl' of [] \<Rightarrow> 2 | m' # ms \<Rightarrow> if entry_amount m' = NaN then 1 else 2)
            else 0)
         < 2 * Suc (length rest) + (if entry_amount m = NaN then 1 else 2)"
  using assms
  by (cases "amount order"; cases "entry_amount m")
     (auto simp: fill_def Let_def DecimalValue_min_def ZERO_def split: if_splits list.splits)

function matchAtPriceLevel_loop :: "clock \<Rightarrow> string \<Rightarrow> Order \<Rightarrow> PriceLevel \<Rightarrow> Trade list \<Rightarrow>
    MatchingEngine \<Rightarrow> Trade list \<times> Order \<times> PriceLevel \<times> MatchingEngine" where
  "matchAtPriceLevel_loop now pr order priceLevel trs eng =
     (case orders priceLevel of
        [] \<Rightarrow> (trs, order, priceLevel, eng)
      | matchOrder # rest \<Rightarrow>
          if gt (amount order) ZERO then
            (case fill now pr order priceLevel matchOrder rest eng of
               (trade, order', priceLevel', eng') \<Rightarrow>
                 matchAtPriceLevel_loop now pr order' priceLevel' (trs @ [trade]) eng')
          else (trs, order, priceLevel, eng))"
  by pat_completeness auto
termination
  apply (relation "measure (\<lambda>(now, pr, order, lvl, trs, eng).
          2 * length (orders lvl) +
          (if gt (amount order) ZERO
           then (case orders lvl of [] \<Rightarrow> 2 | m # ms \<Rightarrow> if entry_amount m = NaN then 1 else 2)
           else 0))")
   apply simp
  apply clarsimp
  apply (drule fill_progress [OF sym])
   apply (auto split: if_splits list.splits)
  done

declare matchAtPriceLevel_loop.simps [simp del]

lemma matchAtPriceLevel_loop_exit:
  "matchAtPriceLevel_loop now pr order lvl trs eng = (ts, order', lvl', eng') \<Longrightarrow>
   orders lvl' = [] \<or> \<not> gt (amount order') ZERO"
proof (induction now pr order lvl trs eng rule: matchAtPriceLevel_loop.induct)
  case (1 now pr order priceLevel trs eng)
  show ?case
  proof (cases "orders priceLevel")
    case Nil
    with "1.prems" show ?thesis
      by (simp add: matchAtPriceLevel_loop.simps [of now pr order priceLevel])
  next
    case (Cons m rest)
    show ?thesis
    proof (cases "gt (amount order) ZERO")
      case False
      with Cons "1.prems" show ?thesis
        by (simp add: matchAtPriceLevel_loop.simps [of now pr order priceLevel])
    next
      case True
      obtain t o1 l1 e1 where f: "fill now pr order priceLevel m rest eng = (t, o1, l1, e1)"
        by (cases "fill now pr order priceLevel m rest eng") auto
      from "1.prems" Cons True f
      have "matchAtPriceLevel_loop now pr o1 l1 (trs @ [t]) e1 = (ts, order', lvl', eng')"
        by (simp add: matchAtPriceLevel_loop.simps [of now pr order priceLevel])
      from "1.IH" [OF Cons True f [symmetric] refl refl this] show ?thesis .
    qed
  qed
qed

definition matchAtPriceLevel :: "clock \<Rightarrow> Order \<Rightarrow> PriceLevel \<Rightarrow> string \<Rightarrow> MatchingEngine \<Rightarrow>
    Trade list \<times> Order \<times> PriceLevel \<times> MatchingEngine" where
  "matchAtPriceLevel now order priceLevel pr eng = matchAtPriceLevel_loop now pr order priceLevel [] eng"

text \<open>
  The loop of \<open>matchOrder\<close>. \<open>order\<close> is the caller's order (read for its side and limit),
  \<open>remainingOrder\<close> the shallow copy the loop decrements, \<open>pricesToMatch\<close> the copy of the
  opposite side's price array. The level found by \<open>get\<close> is mutated in place by
  \<open>matchAtPriceLevel\<close> (the \<open>Map_set\<close> at its own key); an emptied level is deleted from
  the map, and its price is shifted off \<open>pricesToMatch\<close>. The array \<open>oppositeSide.prices\<close>
  itself is never written.
\<close>

function matchOrder_loop :: "clock \<Rightarrow> Order \<Rightarrow> string \<Rightarrow> Order \<Rightarrow> DecimalValue list \<Rightarrow>
    OrderBookSide \<Rightarrow>
    Trade list \<Rightarrow> MatchingEngine \<Rightarrow> Trade list \<times> Order \<times> OrderBookSide \<times> MatchingEngine" where
  "matchOrder_loop now order pr remainingOrder pricesToMatch oppositeSide trs eng =
     (case pricesToMatch of
        [] \<Rightarrow> (trs, remainingOrder, oppositeSide, eng)
      | currentPrice # shifted \<Rightarrow>
          if \<not> gt (amount remainingOrder) ZERO then (trs, remainingOrder, oppositeSide, eng)
          else if \<not> ((side order = ''BUY'' \<and> gte (limit_price order) currentPrice) \<or>
                       (side order = ''SELL'' \<and> lte (limit_price order) currentPrice))
          then (trs, remainingOrder, oppositeSide, eng)
          else
            (case Map_get currentPrice (priceLevels oppositeSide) of
               None \<Rightarrow> matchOrder_loop now order pr remainingOrder shifted oppositeSide trs eng
             | Some priceLevel \<Rightarrow>
                 if orders priceLevel = [] then
                   matchOrder_loop now order pr remainingOrder shifted oppositeSide trs eng
                 else
                   (case matchAtPriceLevel now remainingOrder priceLevel pr eng of
                      (newTrades, remainingOrder', priceLevel', eng') \<Rightarrow>
                        if orders priceLevel' = [] then
                          matchOrder_loop now order pr remainingOrder' shifted
                            (oppositeSide\<lparr>priceLevels := Map_delete currentPrice
                               (Map_set currentPrice priceLevel' (priceLevels oppositeSide))\<rparr>)
                            (trs @ newTrades) eng'
                        else
                          matchOrder_loop now order pr remainingOrder' pricesToMatch
                            (oppositeSide\<lparr>priceLevels :=
                               Map_set currentPrice priceLevel' (priceLevels oppositeSide)\<rparr>)
                            (trs @ newTrades) eng')))"
  by pat_completeness auto
termination
  apply (relation "measure (\<lambda>(now, order, pr, remainingOrder, pricesToMatch, oppositeSide, trs, eng).
          length pricesToMatch + (if gt (amount remainingOrder) ZERO then 1 else 0))")
      apply simp_all
  apply (clarsimp simp: matchAtPriceLevel_def)
  apply (drule matchAtPriceLevel_loop_exit [OF sym])
  apply simp
  done

declare matchOrder_loop.simps [simp del]

text \<open>
  \<open>matchOrder\<close> returns the trades; the model also returns the caller's \<open>order\<close> as it is
  after the call, the book and the engine. The loop works on the copy
  \<open>remainingOrder = {...order}\<close>, whose \<open>amount\<close> field is reassigned; the caller's object
  is never written, so it is returned as it came in.
\<close>

definition matchOrder :: "clock \<Rightarrow> Order \<Rightarrow> OrderBook \<Rightarrow> MatchingEngine \<Rightarrow>
    Trade list \<times> Order \<times> OrderBook \<times> MatchingEngine" where
  "matchOrder now order orderBook eng =
     (let oppositeSide = (if side order = ''BUY'' then asks orderBook else bids orderBook)
      in if prices oppositeSide = [] then ([], order, orderBook, eng)
         else
           (case matchOrder_loop now order (book_pair orderBook) order (prices oppositeSide)
                   oppositeSide [] eng of
              (trs, remainingOrder, oppositeSide', eng') \<Rightarrow>
                (trs, order,
                 (if side order = ''BUY'' then orderBook\<lparr>asks := oppositeSide'\<rparr>
                  else orderBook\<lparr>bids := oppositeSide'\<rparr>),
                 eng')))"

text \<open>\<open>side.prices.sort(...)\<close>: by \<open>b.comparedTo(a)\<close> for bids (descending), by
  \<open>a.comparedTo(b)\<close> for asks (ascending).\<close>

definition sortPrices :: "string \<Rightarrow> DecimalValue list \<Rightarrow> DecimalValue list" where
  "sortPrices sd ps =
     (if sd = ''BUY'' then Array_sort (\<lambda>a b. comparedTo b a) ps
      else Array_sort (\<lambda>a b. comparedTo a b) ps)"

definition addToOrderBook :: "Order \<Rightarrow> OrderBook \<Rightarrow> OrderBook" where
  "addToOrderBook order orderBook =
     (let sd = (if side order = ''BUY'' then bids orderBook else asks orderBook);
          priceStr = limit_price order;
          sd1 = (if \<not> Map_has priceStr (priceLevels sd)
                 then sd\<lparr>priceLevels := Map_set priceStr
                            \<lparr>price = limit_price order, orders = [], totalVolume = ZERO\<rparr>
                            (priceLevels sd),
                         prices := sortPrices (side order) (prices sd @ [limit_price order])\<rparr>
                 else sd);
          sd2 = (case Map_get priceStr (priceLevels sd1) of
                   None \<Rightarrow> sd1
                 | Some priceLevel \<Rightarrow>
                     sd1\<lparr>priceLevels := Map_set priceStr
                            (priceLevel\<lparr>orders := orders priceLevel @
                                 [\<lparr>entry_order_id = order_id order,
                                   entry_account_id = account_id order,
                                   entry_amount = amount order,
                                   entry_limit_price = limit_price order,
                                   entry_timestamp = timestamp order\<rparr>],
                               totalVolume := plus_dec (totalVolume priceLevel) (amount order)\<rparr>)
                            (priceLevels sd1)\<rparr>)
      in if side order = ''BUY'' then orderBook\<lparr>bids := sd2\<rparr> else orderBook\<lparr>asks := sd2\<rparr>)"

definition removeFromOrderBook :: "Order \<Rightarrow> OrderBook \<Rightarrow> bool \<times> OrderBook" where
  "removeFromOrderBook order orderBook =
     (let sd = (if side order = ''BUY'' then bids orderBook else asks orderBook);
          priceStr = limit_price order
      in if \<not> Map_has priceStr (priceLevels sd) then (False, orderBook)
         else
           (case Map_get priceStr (priceLevels sd) of
              None \<Rightarrow> (False, orderBook)
            | Some priceLevel \<Rightarrow>
                (case findIndex (\<lambda>e. entry_order_id e = order_id order) (orders priceLevel) of
                   None \<Rightarrow> (False, orderBook)
                 | Some orderIndex \<Rightarrow>
                     (let orderToRemove = orders priceLevel ! orderIndex;
                          priceLevel' = priceLevel
                            \<lparr>orders := splice1 orderIndex (orders priceLevel),
                             totalVolume := minus_dec (totalVolume priceLevel)
                                              (entry_amount orderToRemove)\<rparr>;
                          sd1 = sd\<lparr>priceLevels := Map_set priceStr priceLevel' (priceLevels sd)\<rparr>;
                          sd2 = (if orders priceLevel' = []
                                 then sd1\<lparr>priceLevels := Map_delete priceStr (priceLevels sd1),
                                          prices := (case findIndex (\<lambda>p. p = priceStr) (prices sd1) of
                                                       None \<Rightarrow> prices sd1
                                                     | Some priceIndex \<Rightarrow> splice1 priceIndex (prices sd1))\<rparr>
                                 else sd1)
                      in (True,
                          if side order = ''BUY'' then orderBook\<lparr>bids := sd2\<rparr>
                          else orderBook\<lparr>asks := sd2\<rparr>)))))"

section \<open>Validation and promotion (validator/orderValidator.ts, models/order.ts)\<close>

text \<open>
  \<open>parseFloat\<close> is a JavaScript built-in and the \<open>Decimal\<close> constructor belongs to
  decimal.js; both are parameters of the model. \<open>parseFloat\<close> returns a JavaScript
  number (\<open>NaN\<close> for a string that starts with no number); the constructor returns a
  decimal, or throws (\<open>None\<close>). A field that is missing or empty is falsy; the model
  writes it as the empty string.
\<close>

definition validateOrder :: "(string \<Rightarrow> number) \<Rightarrow> RawOrder \<Rightarrow> error option" where
  "validateOrder parseFloat order =
     (if filter (\<lambda>field. field = [])
           [raw_type_op order, raw_account_id order, raw_amount order, raw_order_id order,
            raw_pair order, raw_limit_price order, raw_side order] \<noteq> []
      then Some (ValidationError MissingFields)
      else if raw_side order \<noteq> ''BUY'' \<and> raw_side order \<noteq> ''SELL''
      then Some (ValidationError InvalidSide)
      else if isNaN (parseFloat (raw_amount order)) \<or> lte (parseFloat (raw_amount order)) (Finite 0)
      then Some (ValidationError InvalidAmount)
      else if isNaN (parseFloat (raw_limit_price order)) \<or>
              lte (parseFloat (raw_limit_price order)) (Finite 0)
      then Some (ValidationError InvalidPrice)
      else if CHR ''/'' \<notin> set (raw_pair order)
      then Some (ValidationError InvalidPair)
      else None)"

text \<open>\<open>createOrder(rawOrder, timestamp)\<close>; \<open>None\<close> when a \<open>DecimalValue\<close> constructor throws.\<close>

definition createOrder :: "(string \<Rightarrow> DecimalValue option) \<Rightarrow> RawOrder \<Rightarrow> int \<Rightarrow> Order option" where
  "createOrder Decimal rawOrder ts =
     (case Decimal (raw_amount rawOrder) of
        None \<Rightarrow> None
      | Some a \<Rightarrow>
          (case Decimal (raw_limit_price rawOrder) of
             None \<Rightarrow> None
           | Some p \<Rightarrow>
               Some \<lparr>type_op = raw_type_op rawOrder,
                     account_id = raw_account_id rawOrder,
                     amount = a,
                     order_id = raw_order_id rawOrder,
                     pair = raw_pair rawOrder,
                     limit_price = p,
                     side = raw_side rawOrder,
                     timestamp = ts\<rparr>))"

section \<open>Order book service (services/orderBookService.ts)\<close>

definition newOrderBookService :: OrderBookService where
  "newOrderBookService =
     \<lparr>orderBooks = [], matchingEngine = \<lparr>nextTradeId = 1, reads = 0\<rparr>, trades = []\<rparr>"

text \<open>
  \<open>handleCreateOrder\<close> matches, appends the new trades to the service's log, and rests
  the order when the \<open>order.amount\<close> it reads after the call is positive. The book is the
  object held by the service's map; \<open>processOrder\<close> stores the mutated book back at its
  pair.
\<close>

definition handleCreateOrder :: "clock \<Rightarrow> Order \<Rightarrow> OrderBook \<Rightarrow> OrderBookService \<Rightarrow>
    OrderBook \<times> OrderBookService" where
  "handleCreateOrder now order orderBook svc =
     (case matchOrder now order orderBook (matchingEngine svc) of
        (newTrades, order1, orderBook1, eng1) \<Rightarrow>
          (let svc1 = svc\<lparr>matchingEngine := eng1, trades := trades svc @ newTrades\<rparr>
           in if gt (amount order1) ZERO then (addToOrderBook order1 orderBook1, svc1)
              else (orderBook1, svc1)))"

definition handleDeleteOrder :: "Order \<Rightarrow> OrderBook \<Rightarrow> bool \<times> OrderBook" where
  "handleDeleteOrder order orderBook = removeFromOrderBook order orderBook"

definition processOrder :: "clock \<Rightarrow> Order \<Rightarrow> OrderBookService \<Rightarrow> OrderBookService" where
  "processOrder now order svc =
     (let svc1 = (if \<not> Map_has (pair order) (orderBooks svc)
                  then svc\<lparr>orderBooks := Map_set (pair order) (createOrderBook (pair order))
                                             (orderBooks svc)\<rparr>
                  else svc)
      in case Map_get (pair order) (orderBooks svc1) of
           None \<Rightarrow> svc1
         | Some orderBook \<Rightarrow>
             if type_op order = ''CREATE'' then
               (case handleCreateOrder now order orderBook svc1 of
                  (orderBook', svc2) \<Rightarrow>
                    svc2\<lparr>orderBooks := Map_set (pair order) orderBook' (orderBooks svc2)\<rparr>)
             else if type_op order = ''DELETE'' then
               (case handleDeleteOrder order orderBook of
                  (removed, orderBook') \<Rightarrow>
                    svc1\<lparr>orderBooks := Map_set (pair order) orderBook' (orderBooks svc1)\<rparr>)
             else svc1)"

text \<open>
  \<open>processRawOrder\<close>: validate, promote with the clock's reading as the timestamp (the
  default argument of \<open>createOrder\<close>), dispatch. A \<open>ValidationError\<close> is rethrown as it
  is; any other exception becomes an \<open>OrderProcessingError\<close>. The result is the error
  thrown, if any, and the service as the call leaves it.
\<close>

definition tick :: "OrderBookService \<Rightarrow> OrderBookService" where
  "tick svc = svc\<lparr>matchingEngine := (matchingEngine svc)\<lparr>reads := Suc (reads (matchingEngine svc))\<rparr>\<rparr>"

definition processRawOrder :: "clock \<Rightarrow> (string \<Rightarrow> number) \<Rightarrow> (string \<Rightarrow> DecimalValue option) \<Rightarrow>
    RawOrder \<Rightarrow> OrderBookService \<Rightarrow> error option \<times> OrderBookService" where
  "processRawOrder now parseFloat Decimal rawOrder svc =
     (case validateOrder parseFloat rawOrder of
        Some e \<Rightarrow> (Some e, svc)
      | None \<Rightarrow>
          (case createOrder Decimal rawOrder (now (reads (matchingEngine svc))) of
             None \<Rightarrow> (Some OrderProcessingError, tick svc)
           | Some order \<Rightarrow> (None, processOrder now order (tick svc))))"

text \<open>\<open>processRawOrders\<close>: the batch stops at the first exception.\<close>

fun processRawOrders :: "clock \<Rightarrow> (string \<Rightarrow> number) \<Rightarrow> (string \<Rightarrow> DecimalValue option) \<Rightarrow>
    RawOrder list \<Rightarrow> OrderBookService \<Rightarrow> error option \<times> OrderBookService" where
  "processRawOrders now parseFloat Decimal [] svc = (None, svc)"
| "processRawOrders now parseFloat Decimal (rawOrder # rawOrders) svc =
     (case processRawOrder now parseFloat Decimal rawOrder svc of
        (Some e, svc') \<Rightarrow> (Some e, svc')
      | (None, svc') \<Rightarrow> processRawOrders now parseFloat Decimal rawOrders svc')"

subsection \<open>Serialized outputs\<close>

text \<open>
  The serialized forms render each decimal by its canonical string; the model keeps the
  value. \<open>serializeSide\<close> is the traversal of \<open>serializeOrderBook\<close> over one side: the
  prices in array order, and for each price that has a level its entries in queue order.
\<close>

definition serializeSide :: "OrderBookSide \<Rightarrow> OrderBookEntry list" where
  "serializeSide sd =
     concat (map (\<lambda>p. case Map_get p (priceLevels sd) of None \<Rightarrow> [] | Some priceLevel \<Rightarrow> orders priceLevel)
              (prices sd))"

definition serializeOrderBook :: "OrderBook \<Rightarrow> string \<times> OrderBookEntry list \<times> OrderBookEntry list" where
  "serializeOrderBook orderBook =
     (book_pair orderBook, serializeSide (bids orderBook), serializeSide (asks orderBook))"

definition getSerializedOrderBooks :: "OrderBookService \<Rightarrow>
    (string \<times> OrderBookEntry list \<times> OrderBookEntry list) list" where
  "getSerializedOrderBooks svc =
     foldl (\<lambda>result kv. case serializeOrderBook (snd kv) of (k, v) \<Rightarrow> Map_set k v result)
       [] (orderBooks svc)"

definition getSerializedTrades :: "OrderBookService \<Rightarrow> Trade list" where
  "getSerializedTrades svc = trades svc"

subsection \<open>Reference parsers for concrete inputs\<close>

text \<open>
  The two parsers on the strings the concrete inputs below use: a non-empty string of
  decimal digits, and the string \<open>Infinity\<close>. On digits \<open>n\<close> the \<open>Decimal\<close>
  constructor returns \<open>n\<close> itself, whatever the number of digits (an infinity when
  \<open>n\<close> has more than \<open>maxE + 1\<close> digits), and \<open>parseFloat\<close> returns the double nearest to \<open>n\<close>
  (\<open>toDouble\<close>: 53 significant bits, a tie going to the even neighbour, an infinity from
  \<open>2^1024\<close> on). Both read \<open>Infinity\<close> as the infinity. On any other string the
  reference parsers answer \<open>NaN\<close> and an exception; no input below contains one.
\<close>

definition digitVal :: "char \<Rightarrow> nat option" where
  "digitVal c = map_of (zip ''0123456789'' [0, 1, 2, 3, 4, 5, 6, 7, 8, 9]) c"

fun digitsFrom :: "nat \<Rightarrow> string \<Rightarrow> nat option" where
  "digitsFrom n [] = Some n"
| "digitsFrom n (c # cs) =
     (case digitVal c of None \<Rightarrow> None | Some d \<Rightarrow> digitsFrom (10 * n + d) cs)"

definition parseDigits :: "string \<Rightarrow> nat option" where
  "parseDigits s = (if s = [] then None else digitsFrom 0 s)"

definition toDouble :: "nat \<Rightarrow> number" where
  "toDouble n =
     (if floorlog 2 n \<le> 53 then Finite (of_nat n)
      else let ulp = 2 ^ (floorlog 2 n - 53);
               q = n div ulp;
               r = n mod ulp;
               q' = (if ulp < 2 * r \<or> (2 * r = ulp \<and> odd q) then q + 1 else q)
           in if 2 ^ 1024 \<le> q' * ulp then Infinity else Finite (of_nat (q' * ulp)))"

definition toDecimal :: "nat \<Rightarrow> DecimalValue" where
  "toDecimal n = (if floorlog 10 n \<le> Suc maxE then Finite (of_nat n) else Infinity)"

definition parseFloatRef :: "string \<Rightarrow> number" where
  "parseFloatRef s =
     (if s = ''Infinity'' then Infinity
      else case parseDigits s of None \<Rightarrow> NaN | Some n \<Rightarrow> toDouble n)"

definition DecimalRef :: "string \<Rightarrow> DecimalValue option" where
  "DecimalRef s =
     (if s = ''Infinity'' then Some Infinity else map_option toDecimal (parseDigits s))"

section \<open>Vocabulary of the statements\<close>

text \<open>
  Writing one side of a book, the name of the opposite side, and the entry that
  \<open>addToOrderBook\<close> builds from an order.
\<close>

definition setOrderBookSide :: "OrderBook \<Rightarrow> string \<Rightarrow> OrderBookSide \<Rightarrow> OrderBook" where
  "setOrderBookSide orderBook sd s =
     (if sd = ''BUY'' then orderBook\<lparr>bids := s\<rparr> else orderBook\<lparr>asks := s\<rparr>)"

definition oppositeSideName :: "string \<Rightarrow> string" where
  "oppositeSideName sd = (if sd = ''BUY'' then ''SELL'' else ''BUY'')"

definition entryOf :: "Order \<Rightarrow> OrderBookEntry" where
  "entryOf order =
     \<lparr>entry_order_id = order_id order, entry_account_id = account_id order,
      entry_amount = amount order, entry_limit_price = limit_price order,
      entry_timestamp = timestamp order\<rparr>"

subsection \<open>Properties of every resting amount\<close>

text \<open>
  \<open>restingAll P\<close> says that the amount of every entry queued in every price level of
  every book of the service satisfies \<open>P\<close>. An amount is strictly positive when
  \<open>amount.gt(ZERO)\<close> holds, the test the code itself uses before it rests an order; it
  is finite when it is neither an infinity nor \<open>NaN\<close>.
\<close>

definition levelAll :: "(DecimalValue \<Rightarrow> bool) \<Rightarrow> PriceLevel \<Rightarrow> bool" where
  "levelAll P lvl = list_all (\<lambda>e. P (entry_amount e)) (orders lvl)"

definition sideAll :: "(DecimalValue \<Rightarrow> bool) \<Rightarrow> OrderBookSide \<Rightarrow> bool" where
  "sideAll P sd = list_all (\<lambda>kv. levelAll P (snd kv)) (priceLevels sd)"

definition bookAll :: "(DecimalValue \<Rightarrow> bool) \<Rightarrow> OrderBook \<Rightarrow> bool" where
  "bookAll P orderBook = (sideAll P (bids orderBook) \<and> sideAll P (asks orderBook))"

definition restingAll :: "(DecimalValue \<Rightarrow> bool) \<Rightarrow> OrderBookService \<Rightarrow> bool" where
  "restingAll P svc = list_all (\<lambda>kv. bookAll P (snd kv)) (orderBooks svc)"

definition tradedAll :: "(DecimalValue \<Rightarrow> bool) \<Rightarrow> OrderBookService \<Rightarrow> bool" where
  "tradedAll P svc = list_all (\<lambda>t. P (trade_amount t)) (trades svc)"

definition isFinite :: "number \<Rightarrow> bool" where
  "isFinite a = (case a of Finite x \<Rightarrow> True | _ \<Rightarrow> False)"

definition restingPositive :: "OrderBookService \<Rightarrow> bool" where
  "restingPositive svc = restingAll (\<lambda>a. gt a ZERO) svc"

definition restingFinite :: "OrderBookService \<Rightarrow> bool" where
  "restingFinite svc = restingAll isFinite svc"


subsection \<open>Amounts within the range and the precision of the arithmetic\<close>

text \<open>
  \<open>maxAmount\<close> is the largest power of ten a decimal of decimal.js can hold. An amount
  is on the grid of scale \<open>k\<close> when it is a finite, non-negative multiple of \<open>10^-k\<close>
  below \<open>10^(20-k)\<close>: a decimal with at most \<open>k\<close> decimal places that takes at most
  20 digits at that scale.
\<close>

definition maxAmount :: DecimalValue where
  "maxAmount = Finite (10 ^ maxE)"

definition onGrid :: "nat \<Rightarrow> DecimalValue \<Rightarrow> bool" where
  "onGrid k a =
     (case a of
        Finite x \<Rightarrow> 0 \<le> x \<and> x * 10 ^ k < 10 ^ 20 \<and> of_int \<lfloor>x * 10 ^ k\<rfloor> = x * 10 ^ k
      | _ \<Rightarrow> False)"

subsection \<open>The book a command is dispatched to, and the entry a cancel removes\<close>

text \<open>\<open>bookFor\<close> is the book \<open>processOrder\<close> works on: the one stored for the pair, or a
  new one. \<open>removedEntry\<close> is the entry \<open>removeFromOrderBook\<close> takes out: the first entry
  with the order's id in the level at the order's side and limit price.\<close>

definition bookFor :: "string \<Rightarrow> OrderBookService \<Rightarrow> OrderBook" where
  "bookFor p svc = (case Map_get p (orderBooks svc) of None \<Rightarrow> createOrderBook p | Some ob \<Rightarrow> ob)"

definition removedEntry :: "Order \<Rightarrow> OrderBook \<Rightarrow> OrderBookEntry option" where
  "removedEntry order orderBook =
     (case Map_get (limit_price order) (priceLevels (getOrderBookSide orderBook (side order))) of
        None \<Rightarrow> None
      | Some lvl \<Rightarrow> find (\<lambda>e. entry_order_id e = order_id order) (orders lvl))"

subsection \<open>Volumes\<close>

text \<open>
  The resting volume is the sum of \<open>entry.amount\<close> over the entries queued in the levels of
  the level maps of all books (not the \<open>totalVolume\<close> fields); the traded volume is the sum
  of \<open>trade.amount\<close> over the trade log. The sums are exact sums of the finite values
  (\<open>num\<close>); statements about them say separately that the amounts summed are finite.
\<close>

definition num :: "number \<Rightarrow> rat" where
  "num a = (case a of Finite x \<Rightarrow> x | _ \<Rightarrow> 0)"

definition levelVolume :: "PriceLevel \<Rightarrow> rat" where
  "levelVolume lvl = sum_list (map (\<lambda>e. num (entry_amount e)) (orders lvl))"

definition sideVolume :: "OrderBookSide \<Rightarrow> rat" where
  "sideVolume sd = sum_list (map (\<lambda>kv. levelVolume (snd kv)) (priceLevels sd))"

definition bookVolume :: "OrderBook \<Rightarrow> rat" where
  "bookVolume orderBook = sideVolume (bids orderBook) + sideVolume (asks orderBook)"

definition restingVolume :: "OrderBookService \<Rightarrow> rat" where
  "restingVolume svc = sum_list (map (\<lambda>kv. bookVolume (snd kv)) (orderBooks svc))"

definition tradesVolume :: "Trade list \<Rightarrow> rat" where
  "tradesVolume trs = sum_list (map (\<lambda>t. num (trade_amount t)) trs)"

definition tradedVolume :: "OrderBookService \<Rightarrow> rat" where
  "tradedVolume svc = tradesVolume (trades svc)"

text \<open>The keys of a level map are pairwise different.\<close>

definition sideKeysDistinct :: "OrderBookSide \<Rightarrow> bool" where
  "sideKeysDistinct sd = distinct (map fst (priceLevels sd))"

definition bookKeysDistinct :: "OrderBook \<Rightarrow> bool" where
  "bookKeysDistinct orderBook =
     (sideKeysDistinct (bids orderBook) \<and> sideKeysDistinct (asks orderBook))"

definition keysDistinct :: "OrderBookService \<Rightarrow> bool" where
  "keysDistinct svc = list_all (\<lambda>kv. bookKeysDistinct (snd kv)) (orderBooks svc)"

subsection \<open>The commands a batch dispatches\<close>

text \<open>
  \<open>dispatched\<close> lists, for a batch run by \<open>processRawOrders\<close>, every order that reaches
  \<open>processOrder\<close>, each with the service as it is when the order is dispatched. The list
  ends where the batch stops. \<open>createdVolume\<close> sums \<open>order.amount\<close> over the CREATE orders
  of such a list; \<open>deletedVolume\<close> sums, over its DELETE orders, the amount of the entry
  the cancel removes (nothing when the cancel returns false).
\<close>

fun dispatched :: "clock \<Rightarrow> (string \<Rightarrow> number) \<Rightarrow> (string \<Rightarrow> DecimalValue option) \<Rightarrow>
    RawOrder list \<Rightarrow> OrderBookService \<Rightarrow> (Order \<times> OrderBookService) list" where
  "dispatched now parseFloat Decimal [] svc = []"
| "dispatched now parseFloat Decimal (rawOrder # rawOrders) svc =
     (case validateOrder parseFloat rawOrder of
        Some e \<Rightarrow> []
      | None \<Rightarrow>
          (case createOrder Decimal rawOrder (now (reads (matchingEngine svc))) of
             None \<Rightarrow> []
           | Some order \<Rightarrow>
               (order, tick svc) #
               dispatched now parseFloat Decimal rawOrders (processOrder now order (tick svc))))"


definition deletedAmount :: "Order \<Rightarrow> OrderBookService \<Rightarrow> rat" where
  "deletedAmount order svc =
     (if type_op order = ''DELETE''
      then (case removedEntry order (bookFor (pair order) svc) of
              None \<Rightarrow> 0
            | Some e \<Rightarrow> num (entry_amount e))
      else 0)"



subsection \<open>Outputs with the timestamps blanked\<close>

text \<open>Each \<open>erase\<close> function sets every timestamp inside its argument to 0 and changes
  nothing else.\<close>

definition eraseEntry :: "OrderBookEntry \<Rightarrow> OrderBookEntry" where
  "eraseEntry e = e\<lparr>entry_timestamp := 0\<rparr>"

definition eraseTrade :: "Trade \<Rightarrow> Trade" where
  "eraseTrade t = t\<lparr>trade_timestamp := 0\<rparr>"

definition eraseOrder :: "Order \<Rightarrow> Order" where
  "eraseOrder order = order\<lparr>timestamp := 0\<rparr>"

definition mapValues :: "('v \<Rightarrow> 'w) \<Rightarrow> ('k \<times> 'v) list \<Rightarrow> ('k \<times> 'w) list" where
  "mapValues f m = map (\<lambda>kv. (fst kv, f (snd kv))) m"

definition eraseLevel :: "PriceLevel \<Rightarrow> PriceLevel" where
  "eraseLevel lvl = lvl\<lparr>orders := map eraseEntry (orders lvl)\<rparr>"

definition eraseSide :: "OrderBookSide \<Rightarrow> OrderBookSide" where
  "eraseSide sd = sd\<lparr>priceLevels := mapValues eraseLevel (priceLevels sd)\<rparr>"

definition eraseBook :: "OrderBook \<Rightarrow> OrderBook" where
  "eraseBook orderBook =
     orderBook\<lparr>bids := eraseSide (bids orderBook), asks := eraseSide (asks orderBook)\<rparr>"

definition eraseService :: "OrderBookService \<Rightarrow> OrderBookService" where
  "eraseService svc =
     svc\<lparr>orderBooks := mapValues eraseBook (orderBooks svc),
         trades := map eraseTrade (trades svc)\<rparr>"

definition eraseSerializedBooks ::
  "(string \<times> OrderBookEntry list \<times> OrderBookEntry list) list \<Rightarrow>
   (string \<times> OrderBookEntry list \<times> OrderBookEntry list) list" where
  "eraseSerializedBooks books =
     mapValues (\<lambda>sides. (map eraseEntry (fst sides), map eraseEntry (snd sides))) books"

section \<open>Concrete inputs\<close>

definition mkRawOrder :: "string \<Rightarrow> string \<Rightarrow> string \<Rightarrow> string \<Rightarrow> string \<Rightarrow> string \<Rightarrow> string \<Rightarrow> RawOrder" where
  "mkRawOrder t a am i pr p s =
     \<lparr>raw_type_op = t, raw_account_id = a, raw_amount = am, raw_order_id = i,
      raw_pair = pr, raw_limit_price = p, raw_side = s\<rparr>"

text \<open>Scenario B of the specification, with the accounts of the unit test
  "should match multiple price levels".\<close>

definition scenarioB :: "RawOrder list" where
  "scenarioB =
     [mkRawOrder ''CREATE'' ''1'' ''10'' ''1'' ''BTC/USDC'' ''49000'' ''BUY'',
      mkRawOrder ''CREATE'' ''1'' ''10'' ''2'' ''BTC/USDC'' ''50000'' ''BUY'',
      mkRawOrder ''CREATE'' ''1'' ''10'' ''3'' ''BTC/USDC'' ''51000'' ''BUY'',
      mkRawOrder ''CREATE'' ''2'' ''25'' ''4'' ''BTC/USDC'' ''49000'' ''SELL'']"

text \<open>A resting BUY of 10 at 50000 met by a SELL of 5 at the same price (the first two
  commands of the integration test), the same with a SELL of 10, and a command whose
  \<open>type_op\<close> is neither CREATE nor DELETE.\<close>

definition partialFillInput :: "RawOrder list" where
  "partialFillInput =
     [mkRawOrder ''CREATE'' ''1'' ''10'' ''1'' ''BTC/USDC'' ''50000'' ''BUY'',
      mkRawOrder ''CREATE'' ''2'' ''5'' ''2'' ''BTC/USDC'' ''50000'' ''SELL'']"

definition fullFillInput :: "RawOrder list" where
  "fullFillInput =
     [mkRawOrder ''CREATE'' ''1'' ''10'' ''1'' ''BTC/USDC'' ''50000'' ''BUY'',
      mkRawOrder ''CREATE'' ''2'' ''10'' ''2'' ''BTC/USDC'' ''50000'' ''SELL'']"

definition unknownOpInput :: RawOrder where
  "unknownOpInput = mkRawOrder ''UPDATE'' ''1'' ''10'' ''1'' ''ETH/USDC'' ''100'' ''BUY''"


definition bid :: "string \<Rightarrow> OrderBookEntry" where
  "bid i = \<lparr>entry_order_id = i, entry_account_id = ''1'', entry_amount = Finite 10,
            entry_limit_price = Finite 50000, entry_timestamp = 0\<rparr>"

definition bidsBook :: "OrderBookEntry list \<Rightarrow> rat \<Rightarrow> OrderBook" where
  "bidsBook es v =
     \<lparr>book_pair = ''BTC/USDC'',
      bids = \<lparr>priceLevels = [(Finite 50000,
                                \<lparr>price = Finite 50000, orders = es, totalVolume = Finite v\<rparr>)],
               prices = [Finite 50000]\<rparr>,
      asks = createOrderBookSide\<rparr>"

text \<open>An incoming order of account 2 on BTC/USDC.\<close>

definition createOrderOf :: "string \<Rightarrow> string \<Rightarrow> rat \<Rightarrow> rat \<Rightarrow> Order" where
  "createOrderOf i sd a p =
     \<lparr>type_op = ''CREATE'', account_id = ''2'', amount = Finite a, order_id = i,
      pair = ''BTC/USDC'', limit_price = Finite p, side = sd, timestamp = 7\<rparr>"


text \<open>The fully filled pair of commands followed by a new BUY at the emptied price.\<close>

definition refillInput :: "RawOrder list" where
  "refillInput = fullFillInput @ [mkRawOrder ''CREATE'' ''1'' ''10'' ''3'' ''BTC/USDC'' ''50000'' ''BUY'']"


definition infiniteFillInput :: "RawOrder list" where
  "infiniteFillInput =
     [mkRawOrder ''CREATE'' ''1'' ''Infinity'' ''1'' ''BTC/USDC'' ''50000'' ''BUY'',
      mkRawOrder ''CREATE'' ''2'' ''Infinity'' ''2'' ''BTC/USDC'' ''50000'' ''SELL'']"

section \<open>Facts about the decimal arithmetic\<close>

text \<open>The decimal exponent brackets the value, and is the only exponent that does.\<close>

lemma exponent10_bounds:
  assumes "x \<noteq> 0"
  shows "10 powi exponent10 x \<le> \<bar>x\<bar> \<and> \<bar>x\<bar> < 10 powi (exponent10 x + 1)"
proof (cases "1 \<le> \<bar>x\<bar>")
  case True
  define n where "n = nat \<lfloor>\<bar>x\<bar>\<rfloor>"
  have n: "0 < n" "of_nat n \<le> \<bar>x\<bar>" "\<bar>x\<bar> < of_nat n + 1"
    using True unfolding n_def by (auto simp: le_floor_iff) linarith+
  define d where "d = floorlog 10 n"
  from floorlog_bounds [of n 10] n(1) have b: "10 ^ (d - 1) \<le> n" "n < 10 ^ d"
    unfolding d_def by simp_all
  have dpos: "0 < d" using n(1) unfolding d_def by (simp add: floorlog_def)
  have e: "exponent10 x = int d - 1"
    using True by (simp add: exponent10_def n_def d_def)
  from b(1) have "(of_nat (10 ^ (d - 1)) :: rat) \<le> of_nat n" unfolding of_nat_le_iff .
  then have "(10::rat) ^ (d - 1) \<le> of_nat n" by simp
  with n(2) have "(10::rat) ^ (d - 1) \<le> \<bar>x\<bar>" by linarith
  then have lo: "(10::rat) powi (int d - 1) \<le> \<bar>x\<bar>"
    using dpos by (simp add: power_int_def nat_diff_distrib')
  from b(2) have "(of_nat (Suc n) :: rat) \<le> of_nat (10 ^ d)" unfolding of_nat_le_iff by simp
  then have "(of_nat n + 1 :: rat) \<le> 10 ^ d" by simp
  with n(3) have "\<bar>x\<bar> < (10::rat) ^ d" by linarith
  then have hi: "\<bar>x\<bar> < (10::rat) powi (int d - 1 + 1)"
    by (simp add: power_int_def)
  from lo hi e show ?thesis by simp
next
  case False
  define y where "y = 1 / \<bar>x\<bar>"
  have xpos: "0 < \<bar>x\<bar>" using assms by simp
  have y: "1 < y" using False xpos unfolding y_def by (simp add: field_simps)
  define n where "n = nat \<lceil>y\<rceil>"
  have n: "2 \<le> n" "y \<le> of_nat n" "of_nat n < y + 1"
    using y unfolding n_def by (auto simp: ) linarith+
  define d where "d = floorlog 10 (n - 1)"
  from floorlog_bounds [of "n - 1" 10] n(1) have b: "10 ^ (d - 1) \<le> n - 1" "n - 1 < 10 ^ d"
    unfolding d_def by simp_all
  have dpos: "0 < d" using n(1) unfolding d_def by (simp add: floorlog_def)
  have e: "exponent10 x = - int d"
    using False by (simp add: exponent10_def n_def d_def y_def)
  from b(2) have "(of_nat n :: rat) \<le> of_nat (10 ^ d)" unfolding of_nat_le_iff by simp
  then have "(of_nat n :: rat) \<le> 10 ^ d" by simp
  with n(2) have "y \<le> 10 ^ d" by linarith
  then have lo: "(10::rat) powi (- int d) \<le> \<bar>x\<bar>"
    using xpos dpos unfolding y_def
    by (simp add: power_int_def field_simps)
  from b(1) n(1) have "(of_nat (Suc (10 ^ (d - 1))) :: rat) \<le> of_nat n" unfolding of_nat_le_iff by simp
  then have "(10::rat) ^ (d - 1) + 1 \<le> of_nat n" by simp
  with n(3) have "(10::rat) ^ (d - 1) < y" by linarith
  then have "\<bar>x\<bar> * (10::rat) ^ (d - 1) < 1"
    using xpos unfolding y_def by (simp add: field_simps)
  then have hi: "\<bar>x\<bar> < (10::rat) powi (- int d + 1)"
    using dpos
    by (cases "d = 1") (auto simp add: power_int_def field_simps nat_diff_distrib')
  from lo hi e show ?thesis by simp
qed

lemma powi10_less_iff: "(10::rat) powi m < 10 powi n \<longleftrightarrow> m < n"
proof
  assume "(10::rat) powi m < 10 powi n"
  show "m < n"
  proof (rule ccontr)
    assume "\<not> m < n"
    then have "n \<le> m" by simp
    then have "(10::rat) powi n \<le> 10 powi m" by (rule power_int_increasing) simp
    with \<open>(10::rat) powi m < 10 powi n\<close> show False by simp
  qed
next
  assume "m < n"
  then show "(10::rat) powi m < 10 powi n" by (rule power_int_strict_increasing) simp
qed

lemma powi10_pos [simp]: "0 < (10::rat) powi m"
  by (simp add: power_int_def)

lemma exponent10_less: "x \<noteq> 0 \<Longrightarrow> \<bar>x\<bar> < 10 powi m \<Longrightarrow> exponent10 x < m"
  using exponent10_bounds [of x] powi10_less_iff [of "exponent10 x" m] by linarith

lemma exponent10_ge: "x \<noteq> 0 \<Longrightarrow> 10 powi m \<le> \<bar>x\<bar> \<Longrightarrow> m \<le> exponent10 x"
  using exponent10_bounds [of x] powi10_less_iff [of m "exponent10 x + 1"] by linarith


lemma floor_add_half: "\<lfloor>(of_int m :: rat) + 1 / 2\<rfloor> = m"
  by linarith

lemma roundHalfUp_grid:
  assumes "x * 10 ^ k = of_int n" and "\<bar>n\<bar> < 10 ^ 20" and "x \<noteq> 0"
  shows "roundHalfUp x = x" and "- int k \<le> exponent10 x" and "exponent10 x \<le> 19 - int k"
proof -
  define e where "e = exponent10 x"
  have x: "x = of_int n / 10 ^ k" using assms(1) by (simp add: field_simps)
  from assms(3) x have n0: "n \<noteq> 0" by auto
  then have "1 \<le> \<bar>n\<bar>" by simp
  then have "(1::rat) \<le> of_int \<bar>n\<bar>" by (metis of_int_1_le_iff)
  then have "(1::rat) / 10 ^ k \<le> \<bar>x\<bar>"
    unfolding x by (simp add: field_simps)
  then have "(10::rat) powi (- int k) \<le> \<bar>x\<bar>"
    by (simp add: power_int_minus field_simps)
  from exponent10_ge [OF assms(3) this] show lo: "- int k \<le> exponent10 x" .
  from assms(2) have "(of_int \<bar>n\<bar> :: rat) < of_int (10 ^ 20)" unfolding of_int_less_iff .
  then have "(of_int \<bar>n\<bar> :: rat) < 10 ^ 20" by simp
  then have "\<bar>x\<bar> < 10 ^ 20 / 10 ^ k"
    unfolding x by (simp add: field_simps)
  also have "\<dots> = 10 powi (20 - int k)"
    by (simp add: power_int_diff)
  finally have "exponent10 x < 20 - int k" by (rule exponent10_less [OF assms(3)])
  then show hi: "exponent10 x \<le> 19 - int k" by simp
  define j where "j = nat (19 - e - int k)"
  have j: "int j = 19 - e - int k" using hi unfolding j_def e_def by simp
  have "\<bar>x\<bar> / 10 powi (e - 19) = \<bar>x\<bar> * 10 powi (19 - e)"
    using power_int_minus [of "10::rat" "e - 19"] by (simp add: field_simps)
  also have "19 - e = int k + int j" using j by simp
  also have "\<bar>x\<bar> * (10::rat) powi (int k + int j) = \<bar>x\<bar> * 10 ^ k * 10 ^ j"
    by (simp add: power_int_add)
  also have "\<bar>x\<bar> * 10 ^ k = of_int \<bar>n\<bar>"
    unfolding x by (simp add: abs_divide)
  also have "(of_int \<bar>n\<bar> :: rat) * 10 ^ j = of_int (\<bar>n\<bar> * 10 ^ j)" by simp
  finally have q: "\<bar>x\<bar> / 10 powi (e - 19) = of_int (\<bar>n\<bar> * 10 ^ j)" .
  have "roundHalfUp x = sgn x * (\<bar>x\<bar> / 10 powi (e - 19)) * 10 powi (e - 19)"
    unfolding roundHalfUp_def Let_def e_def [symmetric] q floor_add_half ..
  also have "\<dots> = sgn x * \<bar>x\<bar>" by simp
  also have "\<dots> = x" by (simp add: sgn_mult_abs)
  finally show "roundHalfUp x = x" .
qed

lemma twenty_le_maxE: "20 \<le> maxE"
  by (simp add: maxE_def)

lemma finalise_grid:
  assumes "x * 10 ^ k = of_int n" and "\<bar>n\<bar> < 10 ^ 20" and "k \<le> maxE"
  shows "finalise x = Finite x"
proof (cases "x = 0")
  case True
  then show ?thesis by (simp add: finalise_def)
next
  case False
  from roundHalfUp_grid [OF assms(1,2) False] assms(3) twenty_le_maxE
  show ?thesis by (simp add: finalise_def Let_def False)
qed

lemma pow_maxE_less: "(10::rat) ^ maxE < 10 powi (int maxE + 1)"
  using powi10_less_iff [of "int maxE" "int maxE + 1"] by simp

lemma roundHalfUp_bounded:
  assumes "0 < x" and "x \<le> 10 ^ maxE"
  shows "0 < roundHalfUp x" and "roundHalfUp x \<le> 10 ^ maxE"
proof -
  define e where "e = exponent10 x"
  from assms(1) have x0: "x \<noteq> 0" and ax: "\<bar>x\<bar> = x" by simp_all
  from exponent10_bounds [OF x0] have lo: "10 powi e \<le> x"
    unfolding e_def ax by simp
  have "\<bar>x\<bar> < 10 powi (int maxE + 1)" using assms(2) ax pow_maxE_less by simp
  from exponent10_less [OF x0 this] have e: "e \<le> int maxE" unfolding e_def by simp
  define u :: rat where "u = 10 powi (e - 19)"
  have u: "0 < u" unfolding u_def by simp
  have r: "roundHalfUp x = of_int \<lfloor>x / u + 1 / 2\<rfloor> * u"
    using assms(1) by (simp add: roundHalfUp_def Let_def e_def [symmetric] u_def [symmetric])
  have "(10::rat) powi e = 10 powi 19 * u"
    unfolding u_def using power_int_add [of "10::rat" 19 "e - 19"] by simp
  with lo u have "(10::rat) powi 19 \<le> x / u" by (simp add: field_simps)
  then have "1 \<le> x / u" by simp
  then have "1 \<le> \<lfloor>x / u + 1 / 2\<rfloor>" by linarith
  then have "(1::rat) \<le> of_int \<lfloor>x / u + 1 / 2\<rfloor>" by (metis of_int_1_le_iff)
  with u have "u \<le> of_int \<lfloor>x / u + 1 / 2\<rfloor> * u" by simp
  with u show "0 < roundHalfUp x" unfolding r by linarith
  define N :: int where "N = 10 ^ nat (int maxE - e + 19)"
  have "(of_int N :: rat) = 10 powi (int maxE - e + 19)"
    using e unfolding N_def by (simp add: power_int_def)
  then have N: "of_int N * u = 10 ^ maxE"
    unfolding u_def using power_int_add [of "10::rat" "int maxE - e + 19" "e - 19"] by simp
  with assms(2) u have "x / u \<le> of_int N" by (simp add: field_simps)
  then have "\<lfloor>x / u + 1 / 2\<rfloor> \<le> N" by linarith
  then have "(of_int \<lfloor>x / u + 1 / 2\<rfloor> :: rat) \<le> of_int N" by (metis of_int_le_iff)
  with u have "of_int \<lfloor>x / u + 1 / 2\<rfloor> * u \<le> of_int N * u" by simp
  then show "roundHalfUp x \<le> 10 ^ maxE" unfolding r N .
qed

lemma finalise_bounded:
  assumes "0 \<le> x" and "x \<le> 10 ^ maxE"
  shows "\<exists>r. finalise x = Finite r \<and> 0 \<le> r \<and> r \<le> 10 ^ maxE"
proof (cases "x = 0")
  case True
  then show ?thesis by simp
next
  case False
  with assms(1) have "0 < x" by simp
  from roundHalfUp_bounded [OF this assms(2)]
  have r: "0 < roundHalfUp x" "roundHalfUp x \<le> 10 ^ maxE" .
  have "\<bar>roundHalfUp x\<bar> < 10 powi (int maxE + 1)" using r pow_maxE_less by simp
  with r(1) have "exponent10 (roundHalfUp x) < int maxE + 1"
    by (intro exponent10_less) simp_all
  with r False show ?thesis
    by (auto simp: finalise_def Let_def)
qed

lemma finalise_exact:
  "of_int \<lfloor>x\<rfloor> = x \<Longrightarrow> \<bar>x\<bar> < 10 ^ 20 \<Longrightarrow> finalise x = Finite x"
proof -
  assume a: "of_int \<lfloor>x\<rfloor> = x" "\<bar>x\<bar> < 10 ^ 20"
  from a(2) have "\<bar>(of_int \<lfloor>x\<rfloor> :: rat)\<bar> < of_int (10 ^ 20)" unfolding a(1) by simp
  then have "\<bar>\<lfloor>x\<rfloor>\<bar> < 10 ^ 20"
    by (metis of_int_abs of_int_less_iff)
  from finalise_grid [of x 0 "\<lfloor>x\<rfloor>", OF _ this] a(1)
  show ?thesis by simp
qed


text \<open>The reference parsers: the sign \<open>parseFloat\<close> reports, and the decimal of a short
  string of digits.\<close>

lemma toDouble_positive:
  assumes "0 < n"
  shows "toDouble n = Infinity \<or> (\<exists>x. toDouble n = Finite x \<and> 0 < x)"
proof (cases "floorlog 2 n \<le> 53")
  case True
  with assms show ?thesis by (simp add: toDouble_def)
next
  case False
  define ulp where "ulp = (2::nat) ^ (floorlog 2 n - 53)"
  from floorlog_bounds [of n 2] assms have "2 ^ (floorlog 2 n - 1) \<le> n" by simp
  moreover have "ulp \<le> 2 ^ (floorlog 2 n - 1)"
    unfolding ulp_def by (rule power_increasing) simp_all
  ultimately have "ulp \<le> n" by simp
  moreover have u: "0 < ulp" unfolding ulp_def by simp
  ultimately have "1 \<le> n div ulp" by (simp add: Suc_le_eq div_greater_zero_iff)
  with u have "0 < (n div ulp) * ulp" "0 < (n div ulp + 1) * ulp" by simp_all
  with False show ?thesis
    by (simp add: toDouble_def Let_def ulp_def [symmetric])
qed

lemma toDouble_sign [simp]:
  "isNaN (toDouble n) = False" "lte (toDouble n) (Finite 0) = (n = 0)"
proof -
  show "isNaN (toDouble n) = False"
    by (simp add: toDouble_def Let_def)
  show "lte (toDouble n) (Finite 0) = (n = 0)"
  proof (cases "n = 0")
    case True
    then show ?thesis by (simp add: toDouble_def floorlog_def)
  next
    case False
    with toDouble_positive [of n] show ?thesis by auto
  qed
qed

lemma toDecimal_small: "n < 10 ^ 30 \<Longrightarrow> toDecimal n = Finite (of_nat n)"
proof -
  assume "n < 10 ^ 30"
  then have "floorlog 10 n \<le> 30" by (intro floorlog_leI) simp_all
  also have "(30::nat) \<le> Suc maxE" by (simp add: maxE_def)
  finally show ?thesis by (simp add: toDecimal_def)
qed

section \<open>Evaluating the service on concrete inputs\<close>

lemmas parse_defs = parseFloatRef_def DecimalRef_def parseDigits_def digitVal_def toDecimal_small

lemmas run_defs = mkRawOrder_def newOrderBookService_def processRawOrder_def validateOrder_def
  createOrder_def parse_defs tick_def processOrder_def handleCreateOrder_def
  handleDeleteOrder_def matchOrder_def matchOrder_loop.simps matchAtPriceLevel_def
  matchAtPriceLevel_loop.simps fill_def DecimalValue_min_def ZERO_def finalise_exact
  addToOrderBook_def removeFromOrderBook_def Map_get_def Map_has_def Map_delete_def
  createOrderBook_def createOrderBookSide_def sortPrices_def Array_sort_def splice1_def Let_def

lemmas output_defs = getSerializedTrades_def getSerializedOrderBooks_def serializeOrderBook_def
  serializeSide_def Map_get_def

lemma partialFill_run:
  "processRawOrders now parseFloatRef DecimalRef partialFillInput newOrderBookService =
     (None,
      \<lparr>orderBooks = [(''BTC/USDC'', \<lparr>book_pair = ''BTC/USDC'',
          bids = \<lparr>priceLevels = [(Finite 50000, \<lparr>price = Finite 50000,
                     orders = [\<lparr>entry_order_id = ''1'', entry_account_id = ''1'', entry_amount = Finite 5,
                                entry_limit_price = Finite 50000, entry_timestamp = now 0\<rparr>],
                     totalVolume = Finite 5\<rparr>)],
                  prices = [Finite 50000]\<rparr>,
          asks = \<lparr>priceLevels = [(Finite 50000, \<lparr>price = Finite 50000,
                     orders = [\<lparr>entry_order_id = ''2'', entry_account_id = ''2'', entry_amount = Finite 5,
                                entry_limit_price = Finite 50000, entry_timestamp = now 1\<rparr>],
                     totalVolume = Finite 5\<rparr>)],
                  prices = [Finite 50000]\<rparr>\<rparr>)],
       matchingEngine = \<lparr>nextTradeId = 2, reads = 3\<rparr>,
       trades = [\<lparr>trade_id = 1, trade_pair = ''BTC/USDC'', maker_order_id = ''1'',
                  taker_order_id = ''2'', maker_account_id = ''1'', taker_account_id = ''2'',
                  trade_amount = Finite 5, trade_price = Finite 50000, trade_timestamp = now 2\<rparr>]\<rparr>)"
  (is "_ = (None, ?S2)")
proof -
  let ?S1 = "\<lparr>orderBooks = [(''BTC/USDC'', \<lparr>book_pair = ''BTC/USDC'',
          bids = \<lparr>priceLevels = [(Finite 50000, \<lparr>price = Finite 50000,
                     orders = [\<lparr>entry_order_id = ''1'', entry_account_id = ''1'', entry_amount = Finite 10,
                                entry_limit_price = Finite 50000, entry_timestamp = now 0\<rparr>],
                     totalVolume = Finite 10\<rparr>)],
                  prices = [Finite 50000]\<rparr>,
          asks = \<lparr>priceLevels = [], prices = []\<rparr>\<rparr>)],
       matchingEngine = \<lparr>nextTradeId = 1, reads = 1\<rparr>, trades = []\<rparr>"
  have 1: "processRawOrder now parseFloatRef DecimalRef (partialFillInput ! 0) newOrderBookService = (None, ?S1)"
    by (simp add: partialFillInput_def run_defs)
  have 2: "processRawOrder now parseFloatRef DecimalRef (partialFillInput ! 1) ?S1 = (None, ?S2)"
    by (simp add: partialFillInput_def run_defs numeral_2_eq_2)
  show ?thesis
    using 1 2 by (simp add: partialFillInput_def)
qed

lemma fullFill_run:
  "processRawOrders now parseFloatRef DecimalRef fullFillInput newOrderBookService =
     (None,
      \<lparr>orderBooks = [(''BTC/USDC'', \<lparr>book_pair = ''BTC/USDC'',
          bids = \<lparr>priceLevels = [], prices = [Finite 50000]\<rparr>,
          asks = \<lparr>priceLevels = [(Finite 50000, \<lparr>price = Finite 50000,
                     orders = [\<lparr>entry_order_id = ''2'', entry_account_id = ''2'', entry_amount = Finite 10,
                                entry_limit_price = Finite 50000, entry_timestamp = now 1\<rparr>],
                     totalVolume = Finite 10\<rparr>)],
                  prices = [Finite 50000]\<rparr>\<rparr>)],
       matchingEngine = \<lparr>nextTradeId = 2, reads = 3\<rparr>,
       trades = [\<lparr>trade_id = 1, trade_pair = ''BTC/USDC'', maker_order_id = ''1'',
                  taker_order_id = ''2'', maker_account_id = ''1'', taker_account_id = ''2'',
                  trade_amount = Finite 10, trade_price = Finite 50000, trade_timestamp = now 2\<rparr>]\<rparr>)"
  (is "_ = (None, ?S2)")
proof -
  let ?S1 = "\<lparr>orderBooks = [(''BTC/USDC'', \<lparr>book_pair = ''BTC/USDC'',
          bids = \<lparr>priceLevels = [(Finite 50000, \<lparr>price = Finite 50000,
                     orders = [\<lparr>entry_order_id = ''1'', entry_account_id = ''1'', entry_amount = Finite 10,
                                entry_limit_price = Finite 50000, entry_timestamp = now 0\<rparr>],
                     totalVolume = Finite 10\<rparr>)],
                  prices = [Finite 50000]\<rparr>,
          asks = \<lparr>priceLevels = [], prices = []\<rparr>\<rparr>)],
       matchingEngine = \<lparr>nextTradeId = 1, reads = 1\<rparr>, trades = []\<rparr>"
  have 1: "processRawOrder now parseFloatRef DecimalRef (fullFillInput ! 0) newOrderBookService = (None, ?S1)"
    by (simp add: fullFillInput_def run_defs)
  have 2: "processRawOrder now parseFloatRef DecimalRef (fullFillInput ! 1) ?S1 = (None, ?S2)"
    by (simp add: fullFillInput_def run_defs numeral_2_eq_2)
  show ?thesis
    using 1 2 by (simp add: fullFillInput_def)
qed

lemma refill_run:
  "processRawOrders now parseFloatRef DecimalRef refillInput newOrderBookService =
     (None,
      \<lparr>orderBooks = [(''BTC/USDC'', \<lparr>book_pair = ''BTC/USDC'',
          bids = \<lparr>priceLevels = [(Finite 50000, \<lparr>price = Finite 50000,
                     orders = [\<lparr>entry_order_id = ''3'', entry_account_id = ''1'', entry_amount = Finite 10,
                                entry_limit_price = Finite 50000, entry_timestamp = now 3\<rparr>],
                     totalVolume = Finite 10\<rparr>)],
                  prices = [Finite 50000, Finite 50000]\<rparr>,
          asks = \<lparr>priceLevels = [], prices = [Finite 50000]\<rparr>\<rparr>)],
       matchingEngine = \<lparr>nextTradeId = 3, reads = 5\<rparr>,
       trades = [\<lparr>trade_id = 1, trade_pair = ''BTC/USDC'', maker_order_id = ''1'',
                  taker_order_id = ''2'', maker_account_id = ''1'', taker_account_id = ''2'',
                  trade_amount = Finite 10, trade_price = Finite 50000, trade_timestamp = now 2\<rparr>,
                 \<lparr>trade_id = 2, trade_pair = ''BTC/USDC'', maker_order_id = ''2'',
                  taker_order_id = ''3'', maker_account_id = ''2'', taker_account_id = ''1'',
                  trade_amount = Finite 10, trade_price = Finite 50000, trade_timestamp = now 4\<rparr>]\<rparr>)"
  (is "_ = (None, ?S3)")
proof -
  let ?S2 = "\<lparr>orderBooks = [(''BTC/USDC'', \<lparr>book_pair = ''BTC/USDC'',
          bids = \<lparr>priceLevels = [], prices = [Finite 50000]\<rparr>,
          asks = \<lparr>priceLevels = [(Finite 50000, \<lparr>price = Finite 50000,
                     orders = [\<lparr>entry_order_id = ''2'', entry_account_id = ''2'', entry_amount = Finite 10,
                                entry_limit_price = Finite 50000, entry_timestamp = now 1\<rparr>],
                     totalVolume = Finite 10\<rparr>)],
                  prices = [Finite 50000]\<rparr>\<rparr>)],
       matchingEngine = \<lparr>nextTradeId = 2, reads = 3\<rparr>,
       trades = [\<lparr>trade_id = 1, trade_pair = ''BTC/USDC'', maker_order_id = ''1'',
                  taker_order_id = ''2'', maker_account_id = ''1'', taker_account_id = ''2'',
                  trade_amount = Finite 10, trade_price = Finite 50000, trade_timestamp = now 2\<rparr>]\<rparr>"
  have 3: "processRawOrder now parseFloatRef DecimalRef
      (mkRawOrder ''CREATE'' ''1'' ''10'' ''3'' ''BTC/USDC'' ''50000'' ''BUY'') ?S2 = (None, ?S3)"
    by (simp add: run_defs)
  have app: "processRawOrders now pf D (xs @ [x]) svc =
      (case processRawOrders now pf D xs svc of
         (Some e, svc') \<Rightarrow> (Some e, svc')
       | (None, svc') \<Rightarrow> processRawOrder now pf D x svc')" for pf D xs x svc
    by (induction xs arbitrary: svc) (auto split: prod.splits option.splits)
  show ?thesis
    unfolding refillInput_def app fullFill_run using 3 by simp
qed

section \<open>Facts about the containers\<close>

lemma findIndex_None: "findIndex P xs = None \<longleftrightarrow> (\<forall>x\<in>set xs. \<not> P x)"
  by (induction xs) (auto split: option.splits)

lemma findIndex_first:
  "P e \<Longrightarrow> \<forall>x\<in>set before. \<not> P x \<Longrightarrow> findIndex P (before @ e # after) = Some (length before)"
  by (induction before) auto

lemma splice1_middle: "splice1 (length before) (before @ e # after) = before @ after"
  by (simp add: splice1_def)

lemma splice_price_remove1:
  "(case findIndex (\<lambda>q. q = p) ps of None \<Rightarrow> ps | Some i \<Rightarrow> splice1 i ps) = remove1 p ps"
  by (induction ps) (auto simp: splice1_def split: option.splits)

lemma Map_delete_Map_set: "Map_delete k (Map_set k v m) = Map_delete k m"
  by (induction m) (auto simp: Map_delete_def)

lemma findIndex_split:
  "findIndex P xs = Some i \<Longrightarrow>
   \<exists>before e after. xs = before @ e # after \<and> P e \<and> (\<forall>x\<in>set before. \<not> P x) \<and> i = length before"
proof (induction xs arbitrary: i)
  case Nil
  then show ?case by simp
next
  case (Cons x xs)
  show ?case
  proof (cases "P x")
    case True
    with Cons.prems have "i = 0" by simp
    with True show ?thesis by (intro exI [of _ "[]"] exI [of _ x] exI [of _ xs]) simp
  next
    case False
    with Cons.prems obtain j where j: "findIndex P xs = Some j" "i = Suc j"
      by (auto split: option.splits)
    from Cons.IH [OF j(1)] obtain before e after where
      "xs = before @ e # after" "P e" "\<forall>x\<in>set before. \<not> P x" "j = length before" by blast
    with False j show ?thesis
      by (intro exI [of _ "x # before"] exI [of _ e] exI [of _ after]) simp
  qed
qed

lemma Map_set_Map_set: "Map_set k v (Map_set k w m) = Map_set k v m"
  by (induction m) auto

lemma Map_get_Map_set_same: "Map_get k (Map_set k v m) = Some v"
  by (induction m) (auto simp: Map_get_def)

lemma Map_has_iff: "Map_has k m \<longleftrightarrow> Map_get k m \<noteq> None"
  by (simp add: Map_has_def)

lemma Map_get_list_all: "Map_get k m = Some v \<Longrightarrow> list_all Q m \<Longrightarrow> Q (k, v)"
  by (induction m) (auto simp: Map_get_def split: if_splits)

lemma Map_set_list_all: "list_all Q m \<Longrightarrow> Q (k, v) \<Longrightarrow> list_all Q (Map_set k v m)"
  by (induction m) auto

lemma Map_delete_list_all: "list_all Q m \<Longrightarrow> list_all Q (Map_delete k m)"
  by (induction m) (auto simp: Map_delete_def)

lemma Map_set_unchanged: "Map_get k m = Some v \<Longrightarrow> Map_set k v m = m"
  by (induction m) (auto simp: Map_get_def split: if_splits)








section \<open>Invariants of the two matching loops\<close>

text \<open>
  A property of the loop state that holds before the loop and is kept by every iteration
  that fills holds when the loop returns.
\<close>

lemma matchAtPriceLevel_loop_invariant:
  assumes "matchAtPriceLevel_loop now pr order lvl trs eng = (ts, order', lvl', eng')"
    and "I order lvl trs eng"
    and step: "\<And>order lvl trs eng m rest t o1 l1 e1.
      I order lvl trs eng \<Longrightarrow> orders lvl = m # rest \<Longrightarrow> gt (amount order) ZERO \<Longrightarrow>
      fill now pr order lvl m rest eng = (t, o1, l1, e1) \<Longrightarrow> I o1 l1 (trs @ [t]) e1"
  shows "I order' lvl' ts eng'"
  using assms
proof (induction now pr order lvl trs eng rule: matchAtPriceLevel_loop.induct)
  case (1 now pr order priceLevel trs eng)
  note body = "1.prems"(1) [unfolded matchAtPriceLevel_loop.simps [of now pr order priceLevel trs eng]]
  show ?case
  proof (cases "orders priceLevel")
    case Nil
    with body "1.prems"(2) show ?thesis by simp
  next
    case (Cons m rest)
    show ?thesis
    proof (cases "gt (amount order) ZERO")
      case False
      with Cons body "1.prems"(2) show ?thesis by simp
    next
      case True
      obtain t o1 l1 e1 where f: "fill now pr order priceLevel m rest eng = (t, o1, l1, e1)"
        by (cases "fill now pr order priceLevel m rest eng") auto
      from body Cons True f
      have run: "matchAtPriceLevel_loop now pr o1 l1 (trs @ [t]) e1 = (ts, order', lvl', eng')"
        by simp
      have "I o1 l1 (trs @ [t]) e1"
        by (rule "1.prems"(3) [OF "1.prems"(2) Cons True f])
      from "1.IH" [OF Cons True f [symmetric] refl refl run this "1.prems"(3)] show ?thesis .
    qed
  qed
qed

lemma matchOrder_loop_invariant:
  assumes "matchOrder_loop now order pr rem ps sd trs eng = (ts, rem', sd', eng')"
    and "I rem sd trs eng"
    and step: "\<And>rem sd trs eng p lvl nt r1 l1 e1.
      I rem sd trs eng \<Longrightarrow> gt (amount rem) ZERO \<Longrightarrow> Map_get p (priceLevels sd) = Some lvl \<Longrightarrow>
      orders lvl \<noteq> [] \<Longrightarrow> matchAtPriceLevel now rem lvl pr eng = (nt, r1, l1, e1) \<Longrightarrow>
      I r1 (sd\<lparr>priceLevels :=
               (if orders l1 = [] then Map_delete p (Map_set p l1 (priceLevels sd))
                else Map_set p l1 (priceLevels sd))\<rparr>) (trs @ nt) e1"
  shows "I rem' sd' ts eng'"
  using assms
proof (induction now order pr rem ps sd trs eng rule: matchOrder_loop.induct)
  case (1 now order pr rem ps sd trs eng)
  note body = "1.prems"(1) [unfolded matchOrder_loop.simps [of now order pr rem ps sd trs eng]]
  show ?case
  proof (cases ps)
    case Nil
    with body "1.prems"(2) show ?thesis by simp
  next
    case (Cons p shifted)
    show ?thesis
    proof (cases "gt (amount rem) ZERO \<and> ((side order = ''BUY'' \<and> gte (limit_price order) p) \<or>
                       (side order = ''SELL'' \<and> lte (limit_price order) p))")
      case False
      then have "\<not> gt (amount rem) ZERO \<or> \<not> ((side order = ''BUY'' \<and> gte (limit_price order) p) \<or>
                       (side order = ''SELL'' \<and> lte (limit_price order) p))" by simp
      then have "(ts, rem', sd', eng') = (trs, rem, sd, eng)"
        using body Cons by (cases "gt (amount rem) ZERO") simp_all
      with "1.prems"(2) show ?thesis by simp
    next
      case go: True
      then have npos: "\<not> \<not> gt (amount rem) ZERO"
        and compat: "\<not> \<not> ((side order = ''BUY'' \<and> gte (limit_price order) p) \<or>
                       (side order = ''SELL'' \<and> lte (limit_price order) p))" by simp_all
      show ?thesis
      proof (cases "Map_get p (priceLevels sd)")
        case None
        with Cons go body have "matchOrder_loop now order pr rem shifted sd trs eng = (ts, rem', sd', eng')"
          by simp
        from "1.IH"(1) [OF Cons npos compat None this "1.prems"(2,3)] show ?thesis .
      next
        case (Some lvl)
        show ?thesis
        proof (cases "orders lvl = []")
          case True
          with Some Cons go body have "matchOrder_loop now order pr rem shifted sd trs eng = (ts, rem', sd', eng')"
            by simp
          from "1.IH"(2) [OF Cons npos compat Some True this "1.prems"(2,3)] show ?thesis .
        next
          case False
          obtain nt r1 l1 e1 where m: "matchAtPriceLevel now rem lvl pr eng = (nt, r1, l1, e1)"
            by (cases "matchAtPriceLevel now rem lvl pr eng") auto
          from go have "gt (amount rem) ZERO" by simp
          from "1.prems"(3) [OF "1.prems"(2) this Some False m]
          have inv: "I r1 (sd\<lparr>priceLevels :=
               (if orders l1 = [] then Map_delete p (Map_set p l1 (priceLevels sd))
                else Map_set p l1 (priceLevels sd))\<rparr>) (trs @ nt) e1" .
          show ?thesis
          proof (cases "orders l1 = []")
            case True
            let ?sd1 = "sd\<lparr>priceLevels := Map_delete p (Map_set p l1 (priceLevels sd))\<rparr>"
            from True m False Some Cons go body
            have run: "matchOrder_loop now order pr r1 shifted ?sd1 (trs @ nt) e1 = (ts, rem', sd', eng')"
              by simp
            from inv True have "I r1 ?sd1 (trs @ nt) e1" by simp
            from "1.IH"(3) [OF Cons npos compat Some False m [symmetric] refl refl True run this "1.prems"(3)]
            show ?thesis .
          next
            case ne: False
            let ?sd1 = "sd\<lparr>priceLevels := Map_set p l1 (priceLevels sd)\<rparr>"
            from ne m False Some Cons go body
            have run: "matchOrder_loop now order pr r1 ps ?sd1 (trs @ nt) e1 = (ts, rem', sd', eng')"
              by simp
            from inv ne have "I r1 ?sd1 (trs @ nt) e1" by simp
            from "1.IH"(4) [OF Cons npos compat Some False m [symmetric] refl refl ne run this "1.prems"(3)]
            show ?thesis .
          qed
        qed
      qed
    qed
  qed
qed

section \<open>The engine's operations, side by side\<close>

text \<open>
  Each operation of the engine rewritten as one update of one side of the book. These
  equations are what the later proofs unfold instead of the definitions.
\<close>

lemma getOrderBookSide_setOrderBookSide [simp]:
  "getOrderBookSide (setOrderBookSide ob sd s) sd = s"
  by (simp add: getOrderBookSide_def setOrderBookSide_def)

lemma setOrderBookSide_same [simp]: "setOrderBookSide ob sd (getOrderBookSide ob sd) = ob"
  by (simp add: getOrderBookSide_def setOrderBookSide_def)

lemma matchOrder_eq:
  "matchOrder now order ob eng =
     (case matchOrder_loop now order (book_pair ob) order
             (prices (getOrderBookSide ob (oppositeSideName (side order))))
             (getOrderBookSide ob (oppositeSideName (side order))) [] eng of
        (trs, rem, opp', eng') \<Rightarrow>
          (trs, order, setOrderBookSide ob (oppositeSideName (side order)) opp', eng'))"
  by (auto simp: matchOrder_def Let_def getOrderBookSide_def setOrderBookSide_def oppositeSideName_def
        matchOrder_loop.simps [of _ _ _ _ "[]"] split: prod.splits)

lemma addToOrderBook_eq:
  "addToOrderBook order ob =
     setOrderBookSide ob (side order)
       (case Map_get (limit_price order) (priceLevels (getOrderBookSide ob (side order))) of
          None \<Rightarrow>
            (getOrderBookSide ob (side order))
              \<lparr>priceLevels := Map_set (limit_price order)
                 \<lparr>price = limit_price order, orders = [entryOf order],
                   totalVolume = plus_dec ZERO (amount order)\<rparr>
                 (priceLevels (getOrderBookSide ob (side order))),
               prices := sortPrices (side order)
                 (prices (getOrderBookSide ob (side order)) @ [limit_price order])\<rparr>
        | Some lvl \<Rightarrow>
            (getOrderBookSide ob (side order))
              \<lparr>priceLevels := Map_set (limit_price order)
                 (lvl\<lparr>orders := orders lvl @ [entryOf order],
                      totalVolume := plus_dec (totalVolume lvl) (amount order)\<rparr>)
                 (priceLevels (getOrderBookSide ob (side order)))\<rparr>)"
  by (auto simp: addToOrderBook_def Let_def getOrderBookSide_def setOrderBookSide_def entryOf_def
        Map_has_iff Map_get_Map_set_same Map_set_Map_set split: option.splits)

lemma removeFromOrderBook_absent:
  "Map_get (limit_price order) (priceLevels (getOrderBookSide ob (side order))) = None \<Longrightarrow>
   removeFromOrderBook order ob = (False, ob)"
  by (simp add: removeFromOrderBook_def getOrderBookSide_def Map_has_def Let_def)

lemma removeFromOrderBook_not_found:
  "Map_get (limit_price order) (priceLevels (getOrderBookSide ob (side order))) = Some lvl \<Longrightarrow>
   \<forall>x\<in>set (orders lvl). entry_order_id x \<noteq> order_id order \<Longrightarrow>
   removeFromOrderBook order ob = (False, ob)"
  by (simp add: removeFromOrderBook_def getOrderBookSide_def Map_has_def Let_def findIndex_None [THEN iffD2])

lemma removeFromOrderBook_found:
  assumes "Map_get (limit_price order) (priceLevels (getOrderBookSide ob (side order))) = Some lvl"
    and "orders lvl = before @ e # after" and "entry_order_id e = order_id order"
    and "\<forall>x\<in>set before. entry_order_id x \<noteq> order_id order"
  shows "removeFromOrderBook order ob =
     (True,
      setOrderBookSide ob (side order)
        (if before @ after = []
         then (getOrderBookSide ob (side order))
                \<lparr>priceLevels := Map_delete (limit_price order)
                   (priceLevels (getOrderBookSide ob (side order))),
                 prices := remove1 (limit_price order) (prices (getOrderBookSide ob (side order)))\<rparr>
         else (getOrderBookSide ob (side order))
                \<lparr>priceLevels := Map_set (limit_price order)
                   (lvl\<lparr>orders := before @ after, totalVolume := minus_dec (totalVolume lvl) (entry_amount e)\<rparr>)
                   (priceLevels (getOrderBookSide ob (side order)))\<rparr>))"
proof -
  from assms have f: "findIndex (\<lambda>e. entry_order_id e = order_id order) (orders lvl) = Some (length before)"
    by (simp add: findIndex_first)
  with assms(1,2) show ?thesis
    by (simp add: removeFromOrderBook_def getOrderBookSide_def setOrderBookSide_def Map_has_def Let_def
          splice1_middle splice_price_remove1 Map_delete_Map_set cong: option.case_cong)
qed

lemma find_first: "P e \<Longrightarrow> \<forall>x\<in>set before. \<not> P x \<Longrightarrow> find P (before @ e # after) = Some e"
  by (induction before) auto

lemma removeFromOrderBook_outcome:
  obtains (unchanged) "removeFromOrderBook order ob = (False, ob)" "removedEntry order ob = None"
  | (emptied) lvl e where
      "Map_get (limit_price order) (priceLevels (getOrderBookSide ob (side order))) = Some lvl"
      "orders lvl = [e]"
      "removedEntry order ob = Some e"
      "removeFromOrderBook order ob =
         (True,
          setOrderBookSide ob (side order)
            ((getOrderBookSide ob (side order))
               \<lparr>priceLevels := Map_delete (limit_price order)
                  (priceLevels (getOrderBookSide ob (side order))),
                prices := remove1 (limit_price order) (prices (getOrderBookSide ob (side order)))\<rparr>))"
  | (shortened) lvl before e after where
      "Map_get (limit_price order) (priceLevels (getOrderBookSide ob (side order))) = Some lvl"
      "orders lvl = before @ e # after"
      "removedEntry order ob = Some e"
      "removeFromOrderBook order ob =
         (True,
          setOrderBookSide ob (side order)
            ((getOrderBookSide ob (side order))
               \<lparr>priceLevels := Map_set (limit_price order)
                  (lvl\<lparr>orders := before @ after, totalVolume := minus_dec (totalVolume lvl) (entry_amount e)\<rparr>)
                  (priceLevels (getOrderBookSide ob (side order)))\<rparr>))"
proof (cases "Map_get (limit_price order) (priceLevels (getOrderBookSide ob (side order)))")
  case None
  then show ?thesis
    by (intro unchanged) (simp_all add: removeFromOrderBook_absent removedEntry_def)
next
  case (Some lvl)
  note lvl = this
  show ?thesis
  proof (cases "findIndex (\<lambda>e. entry_order_id e = order_id order) (orders lvl)")
    case None
    then have nf: "\<forall>x\<in>set (orders lvl). entry_order_id x \<noteq> order_id order"
      by (simp add: findIndex_None)
    then have "find (\<lambda>e. entry_order_id e = order_id order) (orders lvl) = None"
      by (simp add: find_None_iff)
    with lvl nf show ?thesis
      by (intro unchanged) (simp_all add: removeFromOrderBook_not_found removedEntry_def)
  next
    case (Some i)
    from findIndex_split [OF this] obtain before e after where
      sp: "orders lvl = before @ e # after" "entry_order_id e = order_id order"
        "\<forall>x\<in>set before. entry_order_id x \<noteq> order_id order" by blast
    then have "find (\<lambda>e. entry_order_id e = order_id order) (orders lvl) = Some e"
      by (simp add: find_first)
    with lvl have re: "removedEntry order ob = Some e"
      by (simp add: removedEntry_def)
    note found = removeFromOrderBook_found [OF lvl sp]
    show ?thesis
    proof (cases "before = [] \<and> after = []")
      case True
      with sp(1) have "orders lvl = [e]" by simp
      moreover from True found have "removeFromOrderBook order ob =
         (True,
          setOrderBookSide ob (side order)
            ((getOrderBookSide ob (side order))
               \<lparr>priceLevels := Map_delete (limit_price order)
                  (priceLevels (getOrderBookSide ob (side order))),
                prices := remove1 (limit_price order) (prices (getOrderBookSide ob (side order)))\<rparr>))"
        by simp
      ultimately show ?thesis using lvl re by (intro emptied)
    next
      case False
      with found have "removeFromOrderBook order ob =
         (True,
          setOrderBookSide ob (side order)
            ((getOrderBookSide ob (side order))
               \<lparr>priceLevels := Map_set (limit_price order)
                  (lvl\<lparr>orders := before @ after, totalVolume := minus_dec (totalVolume lvl) (entry_amount e)\<rparr>)
                  (priceLevels (getOrderBookSide ob (side order)))\<rparr>))"
        by simp
      with lvl sp(1) re show ?thesis by (intro shortened)
    qed
  qed
qed

lemma matchOrder_order: "matchOrder now order ob eng = (nt, o1, ob1, eng1) \<Longrightarrow> o1 = order"
  by (auto simp: matchOrder_eq split: prod.splits)

text \<open>The cancel returns true exactly when there is an entry to remove.\<close>

lemma removeFromOrderBook_returns:
  "fst (removeFromOrderBook order ob) \<longleftrightarrow> removedEntry order ob \<noteq> None"
  by (cases rule: removeFromOrderBook_outcome [of order ob]) simp_all

section \<open>The service, step by step\<close>

lemma processOrder_eq:
  "processOrder now order svc =
     (if type_op order = ''CREATE'' then
        (case matchOrder now order (bookFor (pair order) svc) (matchingEngine svc) of
           (nt, o1, ob1, eng1) \<Rightarrow>
             svc\<lparr>orderBooks := Map_set (pair order)
                     (if gt (amount order) ZERO then addToOrderBook order ob1 else ob1) (orderBooks svc),
                  matchingEngine := eng1,
                  trades := trades svc @ nt\<rparr>)
      else if type_op order = ''DELETE'' then
        svc\<lparr>orderBooks := Map_set (pair order)
                (snd (removeFromOrderBook order (bookFor (pair order) svc))) (orderBooks svc)\<rparr>
      else svc\<lparr>orderBooks := Map_set (pair order) (bookFor (pair order) svc) (orderBooks svc)\<rparr>)"
proof (cases "Map_get (pair order) (orderBooks svc)")
  case None
  then show ?thesis
    by (auto simp: processOrder_def Let_def Map_has_iff bookFor_def Map_get_Map_set_same
          handleCreateOrder_def handleDeleteOrder_def Map_set_Map_set
          split: prod.splits dest: matchOrder_order)
next
  case (Some ob)
  then show ?thesis
    by (auto simp: processOrder_def Let_def Map_has_iff bookFor_def Map_set_unchanged
          handleCreateOrder_def handleDeleteOrder_def
          split: prod.splits dest: matchOrder_order)
qed

lemma processRawOrder_outcome:
  obtains (rejected) e where "validateOrder pf raw = Some e"
      "processRawOrder now pf D raw svc = (Some e, svc)"
  | (failed) "validateOrder pf raw = None"
      "createOrder D raw (now (reads (matchingEngine svc))) = None"
      "processRawOrder now pf D raw svc = (Some OrderProcessingError, tick svc)"
  | (dispatched) order where "validateOrder pf raw = None"
      "createOrder D raw (now (reads (matchingEngine svc))) = Some order"
      "processRawOrder now pf D raw svc = (None, processOrder now order (tick svc))"
proof (cases "validateOrder pf raw")
  case (Some e)
  then show ?thesis by (intro rejected [of e]) (simp_all add: processRawOrder_def)
next
  case None
  show ?thesis
  proof (cases "createOrder D raw (now (reads (matchingEngine svc)))")
    case nothing: None
    with None show ?thesis by (intro failed) (simp_all add: processRawOrder_def)
  next
    case (Some order)
    with None show ?thesis by (intro dispatched [of order]) (simp_all add: processRawOrder_def)
  qed
qed

lemma createOrder_fields:
  "createOrder D raw ts = Some order \<Longrightarrow>
   D (raw_amount raw) = Some (amount order) \<and> D (raw_limit_price raw) = Some (limit_price order) \<and>
   type_op order = raw_type_op raw \<and> side order = raw_side raw \<and> pair order = raw_pair raw \<and>
   order_id order = raw_order_id raw \<and> account_id order = raw_account_id raw \<and> timestamp order = ts"
  by (auto simp: createOrder_def split: option.splits)

lemma dispatched_step:
  "validateOrder pf raw = None \<Longrightarrow>
   createOrder D raw (now (reads (matchingEngine svc))) = Some order \<Longrightarrow>
   dispatched now pf D (raw # raws) svc =
     (order, tick svc) # dispatched now pf D raws (processOrder now order (tick svc))"
  by simp


section \<open>A property of the resting amounts kept by every operation\<close>

text \<open>
  \<open>P\<close> is a property of resting amounts and \<open>T\<close> one of the amount the taker has left.
  When one fill keeps them (the premise \<open>keeps\<close> of the lemmas below, a fact of the
  arithmetic alone: the taker's new amount satisfies \<open>T\<close>, and the maker's new amount
  satisfies \<open>P\<close> unless the maker is dequeued), every operation of the engine and of the
  service keeps \<open>P\<close> on all resting amounts.
\<close>

lemma sideAll_get:
  "sideAll P sd \<Longrightarrow> Map_get k (priceLevels sd) = Some lvl \<Longrightarrow> levelAll P lvl"
  unfolding sideAll_def by (drule (1) Map_get_list_all [rotated]) simp

lemma sideAll_set:
  "sideAll P sd \<Longrightarrow> levelAll P lvl \<Longrightarrow>
   sideAll P (sd\<lparr>priceLevels := Map_set k lvl (priceLevels sd)\<rparr>)"
  by (simp add: sideAll_def Map_set_list_all)

lemma sideAll_delete:
  "sideAll P sd \<Longrightarrow> sideAll P (sd\<lparr>priceLevels := Map_delete k (priceLevels sd)\<rparr>)"
  by (simp add: sideAll_def Map_delete_list_all)

lemma sideAll_prices [simp]: "sideAll P (sd\<lparr>prices := ps\<rparr>) = sideAll P sd"
  by (simp add: sideAll_def)

lemma bookAll_get: "bookAll P ob \<Longrightarrow> sideAll P (getOrderBookSide ob sd)"
  by (simp add: bookAll_def getOrderBookSide_def)

lemma bookAll_set: "bookAll P ob \<Longrightarrow> sideAll P s \<Longrightarrow> bookAll P (setOrderBookSide ob sd s)"
  by (simp add: bookAll_def setOrderBookSide_def)

lemma fill_all:
  assumes keeps: "\<And>a b. T a \<Longrightarrow> gt a ZERO \<Longrightarrow> P b \<Longrightarrow>
      T (minus_dec a (DecimalValue_min a b)) \<and>
      (isZero (minus_dec b (DecimalValue_min a b)) \<or> lt (minus_dec b (DecimalValue_min a b)) ZERO \<or>
       P (minus_dec b (DecimalValue_min a b)))"
    and "levelAll P lvl \<and> T (amount order)" and "orders lvl = m # rest" and "gt (amount order) ZERO"
    and "fill now pr order lvl m rest eng = (t, order', lvl', eng')"
  shows "levelAll P lvl' \<and> T (amount order')"
proof -
  from assms(2,3) have "P (entry_amount m)" "list_all (\<lambda>e. P (entry_amount e)) rest" "T (amount order)"
    by (simp_all add: levelAll_def)
  with keeps [of "amount order" "entry_amount m"] assms(4,5) show ?thesis
    by (auto simp: fill_def Let_def levelAll_def split: if_splits)
qed

lemma matchAtPriceLevel_all:
  assumes keeps: "\<And>a b. T a \<Longrightarrow> gt a ZERO \<Longrightarrow> P b \<Longrightarrow>
      T (minus_dec a (DecimalValue_min a b)) \<and>
      (isZero (minus_dec b (DecimalValue_min a b)) \<or> lt (minus_dec b (DecimalValue_min a b)) ZERO \<or>
       P (minus_dec b (DecimalValue_min a b)))"
    and "matchAtPriceLevel now order lvl pr eng = (ts, order', lvl', eng')"
    and "levelAll P lvl \<and> T (amount order)"
  shows "levelAll P lvl' \<and> T (amount order')"
  by (rule matchAtPriceLevel_loop_invariant [where I = "\<lambda>order lvl trs eng. levelAll P lvl \<and> T (amount order)",
        OF assms(2) [unfolded matchAtPriceLevel_def] assms(3)])
     (rule fill_all [where T = T and P = P, OF keeps])

lemma matchOrder_loop_all:
  assumes keeps: "\<And>a b. T a \<Longrightarrow> gt a ZERO \<Longrightarrow> P b \<Longrightarrow>
      T (minus_dec a (DecimalValue_min a b)) \<and>
      (isZero (minus_dec b (DecimalValue_min a b)) \<or> lt (minus_dec b (DecimalValue_min a b)) ZERO \<or>
       P (minus_dec b (DecimalValue_min a b)))"
    and "matchOrder_loop now order pr rem ps sd trs eng = (ts, rem', sd', eng')"
    and "sideAll P sd \<and> T (amount rem)"
  shows "sideAll P sd' \<and> T (amount rem')"
proof (rule matchOrder_loop_invariant [where I = "\<lambda>rem sd trs eng. sideAll P sd \<and> T (amount rem)",
      OF assms(2,3)])
  fix rem sd trs eng p lvl nt r1 l1 e1
  assume sd: "sideAll P sd \<and> T (amount rem)" and g: "Map_get p (priceLevels sd) = Some lvl"
    and m: "matchAtPriceLevel now rem lvl pr eng = (nt, r1, l1, e1)"
  from sd g have "levelAll P lvl" by (auto intro: sideAll_get)
  with sd matchAtPriceLevel_all [where T = T and P = P, OF keeps m]
  have l1: "levelAll P l1" "T (amount r1)" by simp_all
  with sd have s: "sideAll P (sd\<lparr>priceLevels := Map_set p l1 (priceLevels sd)\<rparr>)"
    by (simp add: sideAll_set)
  from sideAll_delete [OF s, of p] s l1(2)
  show "sideAll P (sd\<lparr>priceLevels :=
               (if orders l1 = [] then Map_delete p (Map_set p l1 (priceLevels sd))
                else Map_set p l1 (priceLevels sd))\<rparr>) \<and> T (amount r1)"
    by simp
qed

lemma matchOrder_all:
  assumes keeps: "\<And>a b. T a \<Longrightarrow> gt a ZERO \<Longrightarrow> P b \<Longrightarrow>
      T (minus_dec a (DecimalValue_min a b)) \<and>
      (isZero (minus_dec b (DecimalValue_min a b)) \<or> lt (minus_dec b (DecimalValue_min a b)) ZERO \<or>
       P (minus_dec b (DecimalValue_min a b)))"
    and "matchOrder now order ob eng = (ts, order', ob', eng')" and "bookAll P ob" and "T (amount order)"
  shows "bookAll P ob'"
proof -
  let ?opp = "getOrderBookSide ob (oppositeSideName (side order))"
  obtain trs rem opp' e' where
    l: "matchOrder_loop now order (book_pair ob) order (prices ?opp) ?opp [] eng = (trs, rem, opp', e')"
    by (cases "matchOrder_loop now order (book_pair ob) order (prices ?opp) ?opp [] eng") auto
  with assms(2) have eq: "ob' = setOrderBookSide ob (oppositeSideName (side order)) opp'"
    by (auto simp: matchOrder_eq)
  from assms(3,4) have "sideAll P ?opp \<and> T (amount order)" by (simp add: bookAll_get)
  from matchOrder_loop_all [where T = T and P = P, OF keeps l this] assms(3)
  show ?thesis unfolding eq by (simp add: bookAll_set)
qed

lemma addToOrderBook_all:
  assumes "bookAll P ob" and "P (amount order)"
  shows "bookAll P (addToOrderBook order ob)"
proof -
  let ?sd = "getOrderBookSide ob (side order)"
  from assms(1) have sd: "sideAll P ?sd" by (rule bookAll_get)
  have e: "P (entry_amount (entryOf order))" using assms(2) by (simp add: entryOf_def)
  show ?thesis
  proof (cases "Map_get (limit_price order) (priceLevels ?sd)")
    case None
    have "levelAll P \<lparr>price = limit_price order, orders = [entryOf order],
                      totalVolume = plus_dec ZERO (amount order)\<rparr>"
      using e by (simp add: levelAll_def)
    from sideAll_set [OF sd this] None assms(1) show ?thesis
      by (simp add: addToOrderBook_eq bookAll_set)
  next
    case (Some lvl)
    with sd have "levelAll P lvl" by (rule sideAll_get)
    with e have "levelAll P (lvl\<lparr>orders := orders lvl @ [entryOf order],
                        totalVolume := plus_dec (totalVolume lvl) (amount order)\<rparr>)"
      by (simp add: levelAll_def)
    from sideAll_set [OF sd this] Some assms(1) show ?thesis
      by (simp add: addToOrderBook_eq bookAll_set)
  qed
qed

lemma removeFromOrderBook_all:
  assumes "bookAll P ob"
  shows "bookAll P (snd (removeFromOrderBook order ob))"
proof (cases rule: removeFromOrderBook_outcome [of order ob])
  case unchanged
  with assms show ?thesis by simp
next
  case (emptied lvl e)
  from assms have sd: "sideAll P (getOrderBookSide ob (side order))" by (rule bookAll_get)
  from sideAll_delete [OF sd] assms show ?thesis
    by (simp add: emptied(4) bookAll_set)
next
  case (shortened lvl before e after)
  from assms have sd: "sideAll P (getOrderBookSide ob (side order))" by (rule bookAll_get)
  from sideAll_get [OF sd shortened(1)] have "levelAll P lvl" .
  with shortened(2)
  have "levelAll P (lvl\<lparr>orders := before @ after,
                       totalVolume := minus_dec (totalVolume lvl) (entry_amount e)\<rparr>)"
    by (simp add: levelAll_def)
  from sideAll_set [OF sd this] assms show ?thesis
    by (simp add: shortened(4) bookAll_set)
qed

lemma restingAll_get:
  "restingAll P svc \<Longrightarrow> Map_get k (orderBooks svc) = Some ob \<Longrightarrow> bookAll P ob"
  unfolding restingAll_def by (drule (1) Map_get_list_all [rotated]) simp

lemma restingAll_set:
  "restingAll P svc \<Longrightarrow> bookAll P ob \<Longrightarrow>
   restingAll P (svc\<lparr>orderBooks := Map_set k ob (orderBooks svc)\<rparr>)"
  by (simp add: restingAll_def Map_set_list_all)

lemma restingAll_other [simp]:
  "restingAll P (svc\<lparr>matchingEngine := e\<rparr>) = restingAll P svc"
  "restingAll P (svc\<lparr>trades := t\<rparr>) = restingAll P svc"
  "restingAll P (tick svc) = restingAll P svc"
  by (simp_all add: restingAll_def tick_def)

lemma bookAll_create: "bookAll P (createOrderBook p)"
  by (simp add: bookAll_def createOrderBook_def createOrderBookSide_def sideAll_def)

lemma bookFor_all: "restingAll P svc \<Longrightarrow> bookAll P (bookFor p svc)"
  by (auto simp: bookFor_def bookAll_create split: option.splits dest: restingAll_get)

lemma restingAll_new: "restingAll P newOrderBookService"
  by (simp add: restingAll_def newOrderBookService_def)

lemma processOrder_all:
  assumes keeps: "\<And>a b. T a \<Longrightarrow> gt a ZERO \<Longrightarrow> P b \<Longrightarrow>
      T (minus_dec a (DecimalValue_min a b)) \<and>
      (isZero (minus_dec b (DecimalValue_min a b)) \<or> lt (minus_dec b (DecimalValue_min a b)) ZERO \<or>
       P (minus_dec b (DecimalValue_min a b)))"
    and "restingAll P svc"
    and "type_op order = ''CREATE'' \<Longrightarrow> T (amount order)"
    and "type_op order = ''CREATE'' \<Longrightarrow> gt (amount order) ZERO \<Longrightarrow> P (amount order)"
  shows "restingAll P (processOrder now order svc)"
proof -
  from assms(2) have b: "bookAll P (bookFor (pair order) svc)" by (rule bookFor_all)
  show ?thesis
  proof (cases "type_op order = ''CREATE''")
    case True
    obtain nt o1 ob1 eng1 where
      m: "matchOrder now order (bookFor (pair order) svc) (matchingEngine svc) = (nt, o1, ob1, eng1)"
      by (cases "matchOrder now order (bookFor (pair order) svc) (matchingEngine svc)") auto
    from matchOrder_all [where T = T and P = P, OF keeps m b assms(3) [OF True]]
    have "bookAll P ob1" .
    with assms(4) [OF True]
    have "bookAll P (if gt (amount order) ZERO then addToOrderBook order ob1 else ob1)"
      by (simp add: addToOrderBook_all)
    from restingAll_set [OF assms(2) this] True m show ?thesis
      by (simp add: processOrder_eq)
  next
    case False
    from restingAll_set [OF assms(2) removeFromOrderBook_all [OF b]]
      restingAll_set [OF assms(2) b] False
    show ?thesis by (simp add: processOrder_eq)
  qed
qed

lemma processRawOrders_all:
  assumes keeps: "\<And>a b. T a \<Longrightarrow> gt a ZERO \<Longrightarrow> P b \<Longrightarrow>
      T (minus_dec a (DecimalValue_min a b)) \<and>
      (isZero (minus_dec b (DecimalValue_min a b)) \<or> lt (minus_dec b (DecimalValue_min a b)) ZERO \<or>
       P (minus_dec b (DecimalValue_min a b)))"
    and rests: "\<And>a. T a \<Longrightarrow> gt a ZERO \<Longrightarrow> P a"
    and "restingAll P svc"
    and "\<forall>raw\<in>set raws. raw_type_op raw = ''CREATE'' \<longrightarrow> (\<forall>a. D (raw_amount raw) = Some a \<longrightarrow> T a)"
  shows "restingAll P (snd (processRawOrders now pf D raws svc))"
  using assms(3,4)
proof (induction raws arbitrary: svc)
  case Nil
  then show ?case by simp
next
  case (Cons raw raws)
  show ?case
  proof (cases rule: processRawOrder_outcome [where now = now and pf = pf and D = D and raw = raw and svc = svc])
    case (rejected e)
    with Cons.prems show ?thesis by simp
  next
    case failed
    with Cons.prems show ?thesis by simp
  next
    case (dispatched order)
    from createOrder_fields [OF dispatched(2)] Cons.prems(2)
    have t: "type_op order = ''CREATE'' \<Longrightarrow> T (amount order)" by simp
    from Cons.prems(1) have "restingAll P (tick svc)" by simp
    from processOrder_all [where T = T and P = P, OF keeps this t rests [OF t]]
    have "restingAll P (processOrder now order (tick svc))" by simp
    from Cons.IH [OF this] Cons.prems(2) dispatched(3) show ?thesis by simp
  qed
qed

lemma restingAll_mono:
  assumes "\<And>a. P a \<Longrightarrow> Q a" and "restingAll P svc"
  shows "restingAll Q svc"
  using assms(2)
  unfolding restingAll_def bookAll_def sideAll_def levelAll_def list_all_iff
  by (auto intro: assms(1))

section \<open>Amounts within the range of the arithmetic\<close>

text \<open>A positive amount that is not above \<open>maxAmount\<close> is a finite value in that range,
  and a fill between two such amounts leaves two such amounts or zero.\<close>

lemma within_range:
  assumes "gt a ZERO" and "\<not> gt a maxAmount"
  obtains x where "a = Finite x" and "0 < x" and "x \<le> 10 ^ maxE"
  using assms by (cases a) (auto simp: ZERO_def maxAmount_def)

lemma range_fill:
  assumes "\<not> gt a maxAmount" and "gt a ZERO" and "gt b ZERO \<and> \<not> gt b maxAmount"
  shows "\<not> gt (minus_dec a (DecimalValue_min a b)) maxAmount \<and>
         (isZero (minus_dec b (DecimalValue_min a b)) \<or> lt (minus_dec b (DecimalValue_min a b)) ZERO \<or>
          gt (minus_dec b (DecimalValue_min a b)) ZERO \<and>
          \<not> gt (minus_dec b (DecimalValue_min a b)) maxAmount)"
proof -
  from assms(2,1) obtain x where a: "a = Finite x" "0 < x" "x \<le> 10 ^ maxE" by (rule within_range)
  from assms(3) obtain y where b: "b = Finite y" "0 < y" "y \<le> 10 ^ maxE"
    by (auto elim: within_range)
  show ?thesis
  proof (cases "x < y")
    case True
    with a b have "0 \<le> y - x" "y - x \<le> 10 ^ maxE" by simp_all
    from finalise_bounded [OF this] obtain r where
      "finalise (y - x) = Finite r" "0 \<le> r" "r \<le> 10 ^ maxE" by blast
    with True a b show ?thesis
      by (auto simp: DecimalValue_min_def ZERO_def maxAmount_def)
  next
    case False
    with a b have "0 \<le> x - y" "x - y \<le> 10 ^ maxE" by simp_all
    from finalise_bounded [OF this] obtain r where
      "finalise (x - y) = Finite r" "0 \<le> r" "r \<le> 10 ^ maxE" by blast
    with False a b show ?thesis
      by (auto simp: DecimalValue_min_def ZERO_def maxAmount_def)
  qed
qed

lemma processRawOrders_range:
  assumes "\<forall>raw\<in>set raws. raw_type_op raw = ''CREATE'' \<longrightarrow>
             (\<forall>a. D (raw_amount raw) = Some a \<longrightarrow> \<not> gt a maxAmount)"
  shows "restingAll (\<lambda>a. gt a ZERO \<and> \<not> gt a maxAmount)
           (snd (processRawOrders now pf D raws newOrderBookService))"
  by (rule processRawOrders_all [where T = "\<lambda>a. \<not> gt a maxAmount", OF _ _ restingAll_new assms])
     (rule range_fill, simp_all)

lemma small_amount: "x \<le> 10 ^ 20 \<Longrightarrow> \<not> gt (Finite x) maxAmount"
proof -
  assume "x \<le> 10 ^ 20"
  also have "(10::rat) ^ 20 \<le> 10 ^ maxE"
    by (rule power_increasing) (simp_all add: maxE_def)
  finally show ?thesis by (simp add: maxAmount_def)
qed

section \<open>Every operation accounts for the volume it moves\<close>

lemma sideVolume_prices [simp]: "sideVolume (sd\<lparr>prices := ps\<rparr>) = sideVolume sd"
  by (simp add: sideVolume_def)

lemma sideKeysDistinct_prices [simp]: "sideKeysDistinct (sd\<lparr>prices := ps\<rparr>) = sideKeysDistinct sd"
  by (simp add: sideKeysDistinct_def)











lemma onGrid_0 [simp]: "onGrid k (Finite 0)"
  by (simp add: onGrid_def)





lemma tradesVolume_append [simp]: "tradesVolume (ts @ us) = tradesVolume ts + tradesVolume us"
  by (simp add: tradesVolume_def)

lemma tradesVolume_simps [simp]:
  "tradesVolume [] = 0" "tradesVolume [t] = num (trade_amount t)"
  by (simp_all add: tradesVolume_def)






lemma restingVolume_other [simp]:
  "restingVolume (svc\<lparr>matchingEngine := e\<rparr>) = restingVolume svc"
  "restingVolume (svc\<lparr>trades := t\<rparr>) = restingVolume svc"
  "tradedVolume (svc\<lparr>matchingEngine := e\<rparr>) = tradedVolume svc"
  "tradedVolume (svc\<lparr>orderBooks := b\<rparr>) = tradedVolume svc"
  "keysDistinct (svc\<lparr>matchingEngine := e\<rparr>) = keysDistinct svc"
  "keysDistinct (svc\<lparr>trades := t\<rparr>) = keysDistinct svc"
  "tradedAll P (svc\<lparr>matchingEngine := e\<rparr>) = tradedAll P svc"
  "tradedAll P (svc\<lparr>orderBooks := b\<rparr>) = tradedAll P svc"
  by (simp_all add: restingVolume_def tradedVolume_def keysDistinct_def tradedAll_def)

lemma bookVolume_create [simp]: "bookVolume (createOrderBook p) = 0"
  by (simp add: bookVolume_def createOrderBook_def createOrderBookSide_def sideVolume_def)

lemma bookKeysDistinct_create [simp]: "bookKeysDistinct (createOrderBook p)"
  by (simp add: bookKeysDistinct_def createOrderBook_def createOrderBookSide_def sideKeysDistinct_def)





lemma tick_volume [simp]:
  "tradedVolume (tick svc) = tradedVolume svc" "restingVolume (tick svc) = restingVolume svc"
  "keysDistinct (tick svc) = keysDistinct svc" "bookFor p (tick svc) = bookFor p svc"
  "tradedAll P (tick svc) = tradedAll P svc"
  by (simp_all add: tick_def bookFor_def)

lemma deletedAmount_tick [simp]: "deletedAmount order (tick svc) = deletedAmount order svc"
  by (simp add: deletedAmount_def)


section \<open>Clock reads\<close>

text \<open>The count of clock reads never goes down, and every promotion reads the clock once.\<close>

lemma fill_reads:
  "fill now pr order lvl m rest eng = (t, order', lvl', eng') \<Longrightarrow> reads eng' = Suc (reads eng)"
  by (auto simp: fill_def Let_def)

lemma matchAtPriceLevel_reads:
  assumes "matchAtPriceLevel now order lvl pr eng = (ts, order', lvl', eng')"
  shows "reads eng \<le> reads eng'"
proof (rule matchAtPriceLevel_loop_invariant [where I = "\<lambda>order l trs e. reads eng \<le> reads e",
      OF assms [unfolded matchAtPriceLevel_def]])
  show "reads eng \<le> reads eng" by simp
next
  fix order l trs e m rest t o1 l1 e1
  assume "reads eng \<le> reads e" "fill now pr order l m rest e = (t, o1, l1, e1)"
  then show "reads eng \<le> reads e1" by (auto dest: fill_reads)
qed

lemma matchOrder_loop_reads:
  assumes "matchOrder_loop now order pr rem ps sd trs eng = (ts, rem', sd', eng')"
  shows "reads eng \<le> reads eng'"
proof (rule matchOrder_loop_invariant [where I = "\<lambda>rem s t e. reads eng \<le> reads e", OF assms])
  show "reads eng \<le> reads eng" by simp
next
  fix rem s t e p lvl nt r1 l1 e1
  assume "reads eng \<le> reads e" "matchAtPriceLevel now rem lvl pr e = (nt, r1, l1, e1)"
  then show "reads eng \<le> reads e1" by (auto dest: matchAtPriceLevel_reads)
qed

lemma matchOrder_reads:
  "matchOrder now order ob eng = (nt, o1, ob1, eng1) \<Longrightarrow> reads eng \<le> reads eng1"
  by (auto simp: matchOrder_eq split: prod.splits dest: matchOrder_loop_reads)

lemma processOrder_reads:
  "reads (matchingEngine svc) \<le> reads (matchingEngine (processOrder now order svc))"
  by (auto simp: processOrder_eq split: prod.splits dest: matchOrder_reads)

lemma dispatched_timestamps:
  "\<exists>ks. sorted_wrt (<) ks \<and> (\<forall>k\<in>set ks. reads (matchingEngine svc) \<le> k) \<and>
        map (\<lambda>d. timestamp (fst d)) (dispatched now pf D raws svc) = map now ks"
proof (induction raws arbitrary: svc)
  case Nil
  show ?case by (intro exI [of _ "[]"]) simp
next
  case (Cons raw raws)
  show ?case
  proof (cases "dispatched now pf D (raw # raws) svc")
    case Nil
    then show ?thesis by (intro exI [of _ "[]"]) simp
  next
    case (Cons d ds)
    then obtain order where v: "validateOrder pf raw = None"
      and c: "createOrder D raw (now (reads (matchingEngine svc))) = Some order"
      by (auto split: option.splits)
    let ?svc1 = "processOrder now order (tick svc)"
    from Cons.IH [of ?svc1] obtain ks where ks: "sorted_wrt (<) ks"
      "\<forall>k\<in>set ks. reads (matchingEngine ?svc1) \<le> k"
      "map (\<lambda>d. timestamp (fst d)) (dispatched now pf D raws ?svc1) = map now ks" by blast
    have "Suc (reads (matchingEngine svc)) \<le> reads (matchingEngine ?svc1)"
      using processOrder_reads [of "tick svc" now order] by (simp add: tick_def)
    with ks(2) have gt: "\<forall>k\<in>set ks. reads (matchingEngine svc) < k" by auto
    from createOrder_fields [OF c] have ts: "timestamp order = now (reads (matchingEngine svc))" by simp
    show ?thesis
      using ks(1,3) gt ts
      by (intro exI [of _ "reads (matchingEngine svc) # ks"])
         (auto simp: dispatched_step [where now = now and svc = svc, OF v c] simp del: dispatched.simps)
  qed
qed

section \<open>The clock reaches nothing but the timestamps\<close>

text \<open>Every operation commutes with blanking the timestamps: run under any clock and then
  blanked, it gives what it gives under the clock that always reads 0 on the blanked
  input.\<close>

lemma Map_get_mapValues: "Map_get k (mapValues f m) = map_option f (Map_get k m)"
  by (induction m) (auto simp: Map_get_def mapValues_def)

lemma Map_set_mapValues: "Map_set k (f v) (mapValues f m) = mapValues f (Map_set k v m)"
  by (induction m) (auto simp: mapValues_def)

lemma Map_delete_mapValues: "Map_delete k (mapValues f m) = mapValues f (Map_delete k m)"
  by (induction m) (auto simp: mapValues_def Map_delete_def)

lemma fill_erase:
  assumes "fill now pr order lvl m rest eng = (t, order', lvl', eng')"
  shows "fill (\<lambda>k. 0) pr (eraseOrder order) (eraseLevel lvl) (eraseEntry m) (map eraseEntry rest) eng =
           (eraseTrade t, eraseOrder order', eraseLevel lvl', eng')"
  using assms
  by (auto simp: fill_def Let_def eraseOrder_def eraseLevel_def eraseEntry_def eraseTrade_def)

lemma matchAtPriceLevel_loop_erase:
  "matchAtPriceLevel_loop now pr order lvl trs eng = (ts, order', lvl', eng') \<Longrightarrow>
   matchAtPriceLevel_loop (\<lambda>k. 0) pr (eraseOrder order) (eraseLevel lvl) (map eraseTrade trs) eng =
     (map eraseTrade ts, eraseOrder order', eraseLevel lvl', eng')"
proof (induction now pr order lvl trs eng rule: matchAtPriceLevel_loop.induct)
  case (1 now pr order priceLevel trs eng)
  note body = "1.prems"(1) [unfolded matchAtPriceLevel_loop.simps [of now pr order priceLevel trs eng]]
  note goal = matchAtPriceLevel_loop.simps [of "\<lambda>k. 0" pr "eraseOrder order" "eraseLevel priceLevel"
      "map eraseTrade trs" eng]
  have amt: "amount (eraseOrder order) = amount order" by (simp add: eraseOrder_def)
  show ?case
  proof (cases "orders priceLevel")
    case Nil
    then have "matchAtPriceLevel_loop (\<lambda>k. 0) pr (eraseOrder order) (eraseLevel priceLevel)
        (map eraseTrade trs) eng =
        (map eraseTrade trs, eraseOrder order, eraseLevel priceLevel, eng)"
      by (subst goal) (simp add: eraseLevel_def)
    moreover from Nil body have "(ts, order', lvl', eng') = (trs, order, priceLevel, eng)" by simp
    ultimately show ?thesis by simp
  next
    case (Cons m rest)
    then have ers: "orders (eraseLevel priceLevel) = eraseEntry m # map eraseEntry rest"
      by (simp add: eraseLevel_def)
    show ?thesis
    proof (cases "gt (amount order) ZERO")
      case False
      then have "matchAtPriceLevel_loop (\<lambda>k. 0) pr (eraseOrder order) (eraseLevel priceLevel)
          (map eraseTrade trs) eng =
          (map eraseTrade trs, eraseOrder order, eraseLevel priceLevel, eng)"
        by (subst goal) (simp add: ers amt)
      moreover from False Cons body have "(ts, order', lvl', eng') = (trs, order, priceLevel, eng)"
        by simp
      ultimately show ?thesis by simp
    next
      case True
      obtain t o1 l1 e1 where f: "fill now pr order priceLevel m rest eng = (t, o1, l1, e1)"
        by (cases "fill now pr order priceLevel m rest eng") auto
      from body Cons True f
      have run: "matchAtPriceLevel_loop now pr o1 l1 (trs @ [t]) e1 = (ts, order', lvl', eng')"
        by simp
      have "matchAtPriceLevel_loop (\<lambda>k. 0) pr (eraseOrder order) (eraseLevel priceLevel)
          (map eraseTrade trs) eng =
          matchAtPriceLevel_loop (\<lambda>k. 0) pr (eraseOrder o1) (eraseLevel l1)
            (map eraseTrade (trs @ [t])) e1"
        using True by (subst goal) (simp add: ers amt fill_erase [OF f])
      with "1.IH" [OF Cons True f [symmetric] refl refl run] show ?thesis by simp
    qed
  qed
qed

lemma matchAtPriceLevel_erase:
  "matchAtPriceLevel now order lvl pr eng = (ts, order', lvl', eng') \<Longrightarrow>
   matchAtPriceLevel (\<lambda>k. 0) (eraseOrder order) (eraseLevel lvl) pr eng =
     (map eraseTrade ts, eraseOrder order', eraseLevel lvl', eng')"
  unfolding matchAtPriceLevel_def by (drule matchAtPriceLevel_loop_erase) simp

lemma eraseOrder_fields [simp]:
  "amount (eraseOrder order) = amount order" "side (eraseOrder order) = side order"
  "limit_price (eraseOrder order) = limit_price order" "pair (eraseOrder order) = pair order"
  "type_op (eraseOrder order) = type_op order" "order_id (eraseOrder order) = order_id order"
  "account_id (eraseOrder order) = account_id order"
  by (simp_all add: eraseOrder_def)

lemma eraseLevel_orders_empty [simp]: "orders (eraseLevel lvl) = [] \<longleftrightarrow> orders lvl = []"
  by (simp add: eraseLevel_def)

lemma eraseSide_fields [simp]:
  "prices (eraseSide sd) = prices sd"
  "priceLevels (eraseSide sd) = mapValues eraseLevel (priceLevels sd)"
  by (simp_all add: eraseSide_def)

lemma eraseSide_update:
  "eraseSide (sd\<lparr>priceLevels := m\<rparr>) = (eraseSide sd)\<lparr>priceLevels := mapValues eraseLevel m\<rparr>"
  by (simp add: eraseSide_def)

lemma matchOrder_loop_erase:
  "matchOrder_loop now order pr rem ps sd trs eng = (ts, rem', sd', eng') \<Longrightarrow>
   matchOrder_loop (\<lambda>k. 0) (eraseOrder order) pr (eraseOrder rem) ps (eraseSide sd)
     (map eraseTrade trs) eng =
     (map eraseTrade ts, eraseOrder rem', eraseSide sd', eng')"
proof (induction now order pr rem ps sd trs eng rule: matchOrder_loop.induct)
  case (1 now order pr rem ps sd trs eng)
  note body = "1.prems"(1) [unfolded matchOrder_loop.simps [of now order pr rem ps sd trs eng]]
  note goal = matchOrder_loop.simps [of "\<lambda>k. 0" "eraseOrder order" pr "eraseOrder rem" ps
      "eraseSide sd" "map eraseTrade trs" eng]
  let ?stop = "matchOrder_loop (\<lambda>k. 0) (eraseOrder order) pr (eraseOrder rem) ps (eraseSide sd)
        (map eraseTrade trs) eng =
        (map eraseTrade trs, eraseOrder rem, eraseSide sd, eng)"
  show ?case
  proof (cases ps)
    case Nil
    then have ?stop by (subst goal) simp
    moreover from Nil body have "(ts, rem', sd', eng') = (trs, rem, sd, eng)" by simp
    ultimately show ?thesis by simp
  next
    case (Cons p shifted)
    show ?thesis
    proof (cases "gt (amount rem) ZERO \<and> ((side order = ''BUY'' \<and> gte (limit_price order) p) \<or>
                       (side order = ''SELL'' \<and> lte (limit_price order) p))")
      case False
      then have no: "\<not> gt (amount rem) ZERO \<or> \<not> ((side order = ''BUY'' \<and> gte (limit_price order) p) \<or>
                       (side order = ''SELL'' \<and> lte (limit_price order) p))" by simp
      then have "(ts, rem', sd', eng') = (trs, rem, sd, eng)"
        using body Cons by (cases "gt (amount rem) ZERO") simp_all
      moreover from no Cons have ?stop
        by (subst goal) (cases "gt (amount rem) ZERO", simp_all)
      ultimately show ?thesis by simp
    next
      case go: True
      then have npos: "\<not> \<not> gt (amount rem) ZERO"
        and compat: "\<not> \<not> ((side order = ''BUY'' \<and> gte (limit_price order) p) \<or>
                       (side order = ''SELL'' \<and> lte (limit_price order) p))" by simp_all
      show ?thesis
      proof (cases "Map_get p (priceLevels sd)")
        case None
        with Cons go body have run: "matchOrder_loop now order pr rem shifted sd trs eng = (ts, rem', sd', eng')"
          by simp
        have "matchOrder_loop (\<lambda>k. 0) (eraseOrder order) pr (eraseOrder rem) ps (eraseSide sd)
            (map eraseTrade trs) eng =
            matchOrder_loop (\<lambda>k. 0) (eraseOrder order) pr (eraseOrder rem) shifted (eraseSide sd)
              (map eraseTrade trs) eng"
          using Cons go None by (subst goal) (simp add: Map_get_mapValues)
        with "1.IH"(1) [OF Cons npos compat None run] show ?thesis by simp
      next
        case (Some lvl)
        show ?thesis
        proof (cases "orders lvl = []")
          case True
          with Some Cons go body have run: "matchOrder_loop now order pr rem shifted sd trs eng = (ts, rem', sd', eng')"
            by simp
          have "matchOrder_loop (\<lambda>k. 0) (eraseOrder order) pr (eraseOrder rem) ps (eraseSide sd)
              (map eraseTrade trs) eng =
              matchOrder_loop (\<lambda>k. 0) (eraseOrder order) pr (eraseOrder rem) shifted (eraseSide sd)
                (map eraseTrade trs) eng"
            using Cons go Some True by (subst goal) (simp add: Map_get_mapValues)
          with "1.IH"(2) [OF Cons npos compat Some True run] show ?thesis by simp
        next
          case False
          obtain nt r1 l1 e1 where m: "matchAtPriceLevel now rem lvl pr eng = (nt, r1, l1, e1)"
            by (cases "matchAtPriceLevel now rem lvl pr eng") auto
          note me = matchAtPriceLevel_erase [OF m]
          show ?thesis
          proof (cases "orders l1 = []")
            case True
            let ?sd1 = "sd\<lparr>priceLevels := Map_delete p (Map_set p l1 (priceLevels sd))\<rparr>"
            from True m False Some Cons go body
            have run: "matchOrder_loop now order pr r1 shifted ?sd1 (trs @ nt) e1 = (ts, rem', sd', eng')"
              by simp
            have "matchOrder_loop (\<lambda>k. 0) (eraseOrder order) pr (eraseOrder rem) ps (eraseSide sd)
                (map eraseTrade trs) eng =
                matchOrder_loop (\<lambda>k. 0) (eraseOrder order) pr (eraseOrder r1) shifted (eraseSide ?sd1)
                  (map eraseTrade (trs @ nt)) e1"
              using Cons go Some False True
              by (subst goal)
                 (simp add: Map_get_mapValues me eraseSide_update Map_set_mapValues Map_delete_mapValues)
            with "1.IH"(3) [OF Cons npos compat Some False m [symmetric] refl refl True run]
            show ?thesis by simp
          next
            case ne: False
            let ?sd1 = "sd\<lparr>priceLevels := Map_set p l1 (priceLevels sd)\<rparr>"
            from ne m False Some Cons go body
            have run: "matchOrder_loop now order pr r1 ps ?sd1 (trs @ nt) e1 = (ts, rem', sd', eng')"
              by simp
            have "matchOrder_loop (\<lambda>k. 0) (eraseOrder order) pr (eraseOrder rem) ps (eraseSide sd)
                (map eraseTrade trs) eng =
                matchOrder_loop (\<lambda>k. 0) (eraseOrder order) pr (eraseOrder r1) ps (eraseSide ?sd1)
                  (map eraseTrade (trs @ nt)) e1"
              using Cons go Some False ne
              by (subst goal)
                 (simp add: Map_get_mapValues me eraseSide_update Map_set_mapValues)
            with "1.IH"(4) [OF Cons npos compat Some False m [symmetric] refl refl ne run]
            show ?thesis by simp
          qed
        qed
      qed
    qed
  qed
qed

lemma eraseBook_get [simp]: "getOrderBookSide (eraseBook ob) sd = eraseSide (getOrderBookSide ob sd)"
  by (simp add: getOrderBookSide_def eraseBook_def)

lemma eraseBook_set: "setOrderBookSide (eraseBook ob) sd (eraseSide s) = eraseBook (setOrderBookSide ob sd s)"
  by (simp add: setOrderBookSide_def eraseBook_def)

lemma eraseBook_pair [simp]: "book_pair (eraseBook ob) = book_pair ob"
  by (simp add: eraseBook_def)

lemma matchOrder_erase:
  assumes "matchOrder now order ob eng = (nt, o1, ob1, eng1)"
  shows "matchOrder (\<lambda>k. 0) (eraseOrder order) (eraseBook ob) eng =
           (map eraseTrade nt, eraseOrder o1, eraseBook ob1, eng1)"
proof -
  let ?opp = "getOrderBookSide ob (oppositeSideName (side order))"
  obtain trs rem opp' eng' where
    l: "matchOrder_loop now order (book_pair ob) order (prices ?opp) ?opp [] eng = (trs, rem, opp', eng')"
    by (cases "matchOrder_loop now order (book_pair ob) order (prices ?opp) ?opp [] eng") auto
  with assms have eq: "nt = trs" "o1 = order" "eng1 = eng'"
    "ob1 = setOrderBookSide ob (oppositeSideName (side order)) opp'"
    by (auto simp: matchOrder_eq)
  from matchOrder_loop_erase [OF l] show ?thesis
    by (simp add: matchOrder_eq [of "\<lambda>k. 0"] eq eraseBook_set)
qed

lemma entryOf_erase: "entryOf (eraseOrder order) = eraseEntry (entryOf order)"
  by (simp add: entryOf_def eraseOrder_def eraseEntry_def)

lemma eraseSide_prices_update:
  "eraseSide (sd\<lparr>priceLevels := m, prices := ps\<rparr>) =
     (eraseSide sd)\<lparr>priceLevels := mapValues eraseLevel m, prices := ps\<rparr>"
  by (simp add: eraseSide_def)

lemma eraseLevel_fields [simp]:
  "orders (eraseLevel lvl) = map eraseEntry (orders lvl)"
  "totalVolume (eraseLevel lvl) = totalVolume lvl" "price (eraseLevel lvl) = price lvl"
  by (simp_all add: eraseLevel_def)

lemma eraseLevel_update:
  "eraseLevel (lvl\<lparr>orders := xs, totalVolume := v\<rparr>) =
     (eraseLevel lvl)\<lparr>orders := map eraseEntry xs, totalVolume := v\<rparr>"
  "eraseLevel \<lparr>price = p, orders = xs, totalVolume = v\<rparr> =
     \<lparr>price = p, orders = map eraseEntry xs, totalVolume = v\<rparr>"
  by (simp_all add: eraseLevel_def)

lemmas erase_inward = eraseBook_set [symmetric] eraseSide_prices_update eraseSide_update
  Map_set_mapValues [symmetric] Map_delete_mapValues [symmetric] Map_get_mapValues entryOf_erase
  eraseLevel_update

lemma addToOrderBook_erase:
  "addToOrderBook (eraseOrder order) (eraseBook ob) = eraseBook (addToOrderBook order ob)"
  by (cases "Map_get (limit_price order) (priceLevels (getOrderBookSide ob (side order)))")
     (simp_all add: addToOrderBook_eq erase_inward)

lemma eraseEntry_fields [simp]:
  "entry_order_id (eraseEntry e) = entry_order_id e" "entry_amount (eraseEntry e) = entry_amount e"
  by (simp_all add: eraseEntry_def)

lemma removeFromOrderBook_erase:
  "removeFromOrderBook (eraseOrder order) (eraseBook ob) =
     (fst (removeFromOrderBook order ob), eraseBook (snd (removeFromOrderBook order ob)))"
proof (cases "Map_get (limit_price order) (priceLevels (getOrderBookSide ob (side order)))")
  case None
  then have "Map_get (limit_price (eraseOrder order))
      (priceLevels (getOrderBookSide (eraseBook ob) (side (eraseOrder order)))) = None"
    by (simp add: Map_get_mapValues)
  from removeFromOrderBook_absent [OF this] removeFromOrderBook_absent [OF None]
  show ?thesis by simp
next
  case (Some lvl)
  then have g: "Map_get (limit_price (eraseOrder order))
      (priceLevels (getOrderBookSide (eraseBook ob) (side (eraseOrder order)))) = Some (eraseLevel lvl)"
    by (simp add: Map_get_mapValues)
  show ?thesis
  proof (cases "findIndex (\<lambda>e. entry_order_id e = order_id order) (orders lvl)")
    case None
    then have nf: "\<forall>x\<in>set (orders lvl). entry_order_id x \<noteq> order_id order"
      by (simp add: findIndex_None)
    then have "\<forall>x\<in>set (orders (eraseLevel lvl)). entry_order_id x \<noteq> order_id (eraseOrder order)"
      by simp
    from removeFromOrderBook_not_found [OF g this] removeFromOrderBook_not_found [OF Some nf]
    show ?thesis by simp
  next
    case (Some i)
    from findIndex_split [OF this] obtain before e after where
      sp: "orders lvl = before @ e # after" "entry_order_id e = order_id order"
        "\<forall>x\<in>set before. entry_order_id x \<noteq> order_id order" by blast
    have sp': "orders (eraseLevel lvl) = map eraseEntry before @ eraseEntry e # map eraseEntry after"
      "entry_order_id (eraseEntry e) = order_id (eraseOrder order)"
      "\<forall>x\<in>set (map eraseEntry before). entry_order_id x \<noteq> order_id (eraseOrder order)"
      using sp by simp_all
    from removeFromOrderBook_found [OF g sp'] removeFromOrderBook_found [OF \<open>Map_get _ _ = Some lvl\<close> sp]
    show ?thesis
      by (simp add: erase_inward)
  qed
qed

lemma eraseService_fields [simp]:
  "matchingEngine (eraseService svc) = matchingEngine svc"
  "trades (eraseService svc) = map eraseTrade (trades svc)"
  "orderBooks (eraseService svc) = mapValues eraseBook (orderBooks svc)"
  by (simp_all add: eraseService_def)

lemma eraseBook_create [simp]: "eraseBook (createOrderBook p) = createOrderBook p"
  by (simp add: eraseBook_def eraseSide_def createOrderBook_def createOrderBookSide_def mapValues_def)

lemma bookFor_erase: "bookFor p (eraseService svc) = eraseBook (bookFor p svc)"
  by (simp add: bookFor_def Map_get_mapValues split: option.splits)

lemma eraseService_update:
  "eraseService (svc\<lparr>orderBooks := m\<rparr>) = (eraseService svc)\<lparr>orderBooks := mapValues eraseBook m\<rparr>"
  "eraseService (svc\<lparr>orderBooks := m, matchingEngine := e, trades := t\<rparr>) =
     (eraseService svc)\<lparr>orderBooks := mapValues eraseBook m, matchingEngine := e,
        trades := map eraseTrade t\<rparr>"
  by (simp_all add: eraseService_def)

lemma processOrder_erase:
  "processOrder (\<lambda>k. 0) (eraseOrder order) (eraseService svc) = eraseService (processOrder now order svc)"
proof (cases "type_op order = ''CREATE''")
  case True
  obtain nt o1 ob1 eng1 where
    m: "matchOrder now order (bookFor (pair order) svc) (matchingEngine svc) = (nt, o1, ob1, eng1)"
    by (cases "matchOrder now order (bookFor (pair order) svc) (matchingEngine svc)") auto
  from True m matchOrder_erase [OF m] show ?thesis
    by (simp add: processOrder_eq bookFor_erase eraseService_update Map_set_mapValues [symmetric]
          addToOrderBook_erase)
next
  case False
  then show ?thesis
    by (simp add: processOrder_eq bookFor_erase eraseService_update Map_set_mapValues [symmetric]
          removeFromOrderBook_erase)
qed

lemma tick_erase: "tick (eraseService svc) = eraseService (tick svc)"
  by (simp add: tick_def eraseService_def)

lemma createOrder_erase: "createOrder D raw 0 = map_option eraseOrder (createOrder D raw ts)"
  by (simp add: createOrder_def eraseOrder_def split: option.splits)

lemma processRawOrder_erase:
  "processRawOrder (\<lambda>k. 0) pf D raw (eraseService svc) =
     (fst (processRawOrder now pf D raw svc), eraseService (snd (processRawOrder now pf D raw svc)))"
proof (cases rule: processRawOrder_outcome [where now = now and pf = pf and D = D and raw = raw and svc = svc])
  case (rejected e)
  then show ?thesis by (simp add: processRawOrder_def)
next
  case failed
  with createOrder_erase [of D raw "now (reads (matchingEngine svc))"] show ?thesis
    by (simp add: processRawOrder_def tick_erase)
next
  case (dispatched order)
  with createOrder_erase [of D raw "now (reads (matchingEngine svc))"] show ?thesis
    by (simp add: processRawOrder_def tick_erase processOrder_erase [of _ _ now])
qed

lemma processRawOrders_erase:
  "processRawOrders (\<lambda>k. 0) pf D raws (eraseService svc) =
     (fst (processRawOrders now pf D raws svc), eraseService (snd (processRawOrders now pf D raws svc)))"
proof (induction raws arbitrary: svc)
  case Nil
  show ?case by simp
next
  case (Cons raw raws)
  obtain err svc' where r: "processRawOrder now pf D raw svc = (err, svc')"
    by (cases "processRawOrder now pf D raw svc") auto
  with processRawOrder_erase [of pf D raw svc now]
  have r0: "processRawOrder (\<lambda>k. 0) pf D raw (eraseService svc) = (err, eraseService svc')" by simp
  show ?case
    by (cases err) (simp_all add: r r0 Cons.IH)
qed

lemma eraseService_new [simp]: "eraseService newOrderBookService = newOrderBookService"
  by (simp add: eraseService_def newOrderBookService_def mapValues_def)

lemma serializeSide_erase: "serializeSide (eraseSide sd) = map eraseEntry (serializeSide sd)"
  by (simp add: serializeSide_def Map_get_mapValues map_concat comp_def option.case_distrib
      cong: option.case_cong)

lemma getSerializedOrderBooks_erase:
  "getSerializedOrderBooks (eraseService svc) = eraseSerializedBooks (getSerializedOrderBooks svc)"
proof -
  have "foldl (\<lambda>result kv. case serializeOrderBook (snd kv) of (k, v) \<Rightarrow> Map_set k v result)
          (eraseSerializedBooks acc) (mapValues eraseBook books) =
        eraseSerializedBooks
          (foldl (\<lambda>result kv. case serializeOrderBook (snd kv) of (k, v) \<Rightarrow> Map_set k v result)
             acc books)" for acc books
  proof (induction books arbitrary: acc)
    case Nil
    show ?case by (simp add: mapValues_def)
  next
    case (Cons b books)
    have "Map_set (book_pair (snd b))
            (serializeSide (eraseSide (bids (snd b))), serializeSide (eraseSide (asks (snd b))))
            (eraseSerializedBooks acc) =
          eraseSerializedBooks
            (Map_set (book_pair (snd b)) (serializeSide (bids (snd b)), serializeSide (asks (snd b))) acc)"
      unfolding eraseSerializedBooks_def
      by (simp add: Map_set_mapValues [symmetric] serializeSide_erase)
    then show ?case
      using Cons.IH by (simp add: mapValues_def serializeOrderBook_def eraseBook_def)
  qed
  from this [of "[]" "orderBooks svc"] show ?thesis
    by (simp add: getSerializedOrderBooks_def eraseSerializedBooks_def mapValues_def)
qed

text \<open>
  C1 (the code departs from the claim). The SELL of 5 is filled completely by the resting
  BUY of 10: one trade of 5 is emitted. \<open>matchOrder\<close> decrements only its private copy,
  so the amount the caller reads afterwards is still 5, not 5 - 5, and the service rests
  the filled taker on the ask side with amount 5.
\<close>

theorem filled_taker_is_rested:
  "(case matchOrder now
           \<lparr>type_op = ''CREATE'', account_id = ''2'', amount = Finite 5, order_id = ''2'',
              pair = ''BTC/USDC'', limit_price = Finite 50000, side = ''SELL'', timestamp = ts\<rparr>
           (addToOrderBook
              \<lparr>type_op = ''CREATE'', account_id = ''1'', amount = Finite 10, order_id = ''1'',
                 pair = ''BTC/USDC'', limit_price = Finite 50000, side = ''BUY'', timestamp = ts0\<rparr>
              (createOrderBook ''BTC/USDC''))
           \<lparr>nextTradeId = 1, reads = 0\<rparr> of
      (newTrades, order', orderBook', eng') \<Rightarrow>
        map trade_amount newTrades = [Finite 5] \<and> amount order' = Finite 5) \<and>
   (case processRawOrders now parseFloatRef DecimalRef partialFillInput newOrderBookService of
      (err, svc) \<Rightarrow>
        err = None \<and>
        map trade_amount (getSerializedTrades svc) = [Finite 5] \<and>
        map (\<lambda>(p, bs, as). as) (getSerializedOrderBooks svc) =
          [[\<lparr>entry_order_id = ''2'', entry_account_id = ''2'', entry_amount = Finite 5,
              entry_limit_price = Finite 50000, entry_timestamp = now 1\<rparr>]])"
  unfolding partialFill_run by (simp add: output_defs run_defs)

text \<open>
  C2 (the code departs from the claim). The SELL of 10 empties the bid level 50000.
  \<open>matchOrder\<close> deletes the level from the map but shifts the price off its private copy
  of the price array only: after the command the bid side's \<open>prices\<close> still holds 50000
  while its \<open>priceLevels\<close> map has no key. A later BUY at 50000 finds no level, pushes the
  price a second time, and the serialized bid side then lists the one resting order 3
  twice.
\<close>

theorem emptied_level_price_stays:
  "(case processRawOrders now parseFloatRef DecimalRef fullFillInput newOrderBookService of
      (err, svc) \<Rightarrow>
        err = None \<and>
        map (\<lambda>(p, ob). (prices (bids ob), map fst (priceLevels (bids ob)))) (orderBooks svc) =
          [([Finite 50000], [])]) \<and>
   (case processRawOrders now parseFloatRef DecimalRef refillInput newOrderBookService of
      (err, svc) \<Rightarrow>
        err = None \<and>
        map (\<lambda>(p, ob). (prices (bids ob), map fst (priceLevels (bids ob)))) (orderBooks svc) =
          [([Finite 50000, Finite 50000], [Finite 50000])] \<and>
        map (\<lambda>(p, bs, as). map entry_order_id bs) (getSerializedOrderBooks svc) = [[''3'', ''3'']])"
  unfolding fullFill_run refill_run by (simp add: output_defs)




text \<open>
  C4. On the input of Scenario B the service raises no error and emits exactly three
  trades, in this order: maker 3 for 10 at 51000, maker 2 for 10 at 50000, maker 1 for 5
  at 49000. The serialized bid side of the final book holds exactly one entry, order 1
  with amount 5 at price 49000, and the bid side's level map holds exactly the level
  49000 with that entry. The clock \<open>now\<close> is arbitrary.
\<close>

theorem scenarioB_trades_and_bids:
  "(case processRawOrders now parseFloatRef DecimalRef scenarioB newOrderBookService of
      (err, svc) \<Rightarrow>
        err = None \<and>
        getSerializedTrades svc =
          [\<lparr>trade_id = 1, trade_pair = ''BTC/USDC'', maker_order_id = ''3'',
             taker_order_id = ''4'', maker_account_id = ''1'', taker_account_id = ''2'',
             trade_amount = Finite 10, trade_price = Finite 51000, trade_timestamp = now 4\<rparr>,
           \<lparr>trade_id = 2, trade_pair = ''BTC/USDC'', maker_order_id = ''2'',
             taker_order_id = ''4'', maker_account_id = ''1'', taker_account_id = ''2'',
             trade_amount = Finite 10, trade_price = Finite 50000, trade_timestamp = now 5\<rparr>,
           \<lparr>trade_id = 3, trade_pair = ''BTC/USDC'', maker_order_id = ''1'',
             taker_order_id = ''4'', maker_account_id = ''1'', taker_account_id = ''2'',
             trade_amount = Finite 5, trade_price = Finite 49000, trade_timestamp = now 6\<rparr>] \<and>
        map (\<lambda>(p, bs, as). (p, bs)) (getSerializedOrderBooks svc) =
          [(''BTC/USDC'',
            [\<lparr>entry_order_id = ''1'', entry_account_id = ''1'', entry_amount = Finite 5,
               entry_limit_price = Finite 49000, entry_timestamp = now 0\<rparr>])] \<and>
        map (\<lambda>(p, ob). priceLevels (bids ob)) (orderBooks svc) =
          [[(Finite 49000,
             \<lparr>price = Finite 49000,
                orders = [\<lparr>entry_order_id = ''1'', entry_account_id = ''1'', entry_amount = Finite 5,
                           entry_limit_price = Finite 49000, entry_timestamp = now 0\<rparr>],
                totalVolume = Finite 5\<rparr>)]])"
proof -
  let ?e1 = "\<lparr>entry_order_id = ''1'', entry_account_id = ''1'', entry_amount = Finite 10,
               entry_limit_price = Finite 49000, entry_timestamp = now 0\<rparr>"
  let ?e2 = "\<lparr>entry_order_id = ''2'', entry_account_id = ''1'', entry_amount = Finite 10,
               entry_limit_price = Finite 50000, entry_timestamp = now 1\<rparr>"
  let ?e3 = "\<lparr>entry_order_id = ''3'', entry_account_id = ''1'', entry_amount = Finite 10,
               entry_limit_price = Finite 51000, entry_timestamp = now 2\<rparr>"
  let ?l1 = "(Finite 49000, \<lparr>price = Finite 49000, orders = [?e1], totalVolume = Finite 10\<rparr>)"
  let ?l2 = "(Finite 50000, \<lparr>price = Finite 50000, orders = [?e2], totalVolume = Finite 10\<rparr>)"
  let ?l3 = "(Finite 51000, \<lparr>price = Finite 51000, orders = [?e3], totalVolume = Finite 10\<rparr>)"
  let ?no = "\<lparr>priceLevels = [], prices = []\<rparr>"
  let ?S1 = "\<lparr>orderBooks = [(''BTC/USDC'', \<lparr>book_pair = ''BTC/USDC'',
                 bids = \<lparr>priceLevels = [?l1], prices = [Finite 49000]\<rparr>, asks = ?no\<rparr>)],
              matchingEngine = \<lparr>nextTradeId = 1, reads = 1\<rparr>, trades = []\<rparr>"
  let ?S2 = "\<lparr>orderBooks = [(''BTC/USDC'', \<lparr>book_pair = ''BTC/USDC'',
                 bids = \<lparr>priceLevels = [?l1, ?l2], prices = [Finite 50000, Finite 49000]\<rparr>, asks = ?no\<rparr>)],
              matchingEngine = \<lparr>nextTradeId = 1, reads = 2\<rparr>, trades = []\<rparr>"
  let ?S3 = "\<lparr>orderBooks = [(''BTC/USDC'', \<lparr>book_pair = ''BTC/USDC'',
                 bids = \<lparr>priceLevels = [?l1, ?l2, ?l3], prices = [Finite 51000, Finite 50000, Finite 49000]\<rparr>, asks = ?no\<rparr>)],
              matchingEngine = \<lparr>nextTradeId = 1, reads = 3\<rparr>, trades = []\<rparr>"
  have 1: "processRawOrder now parseFloatRef DecimalRef (scenarioB ! 0) newOrderBookService = (None, ?S1)"
    by (simp add: scenarioB_def run_defs)
  have 2: "processRawOrder now parseFloatRef DecimalRef (scenarioB ! 1) ?S1 = (None, ?S2)"
    by (simp add: scenarioB_def run_defs)
  have 3: "processRawOrder now parseFloatRef DecimalRef (scenarioB ! 2) ?S2 = (None, ?S3)"
    by (simp add: scenarioB_def run_defs)
  let ?S4 = "\<lparr>orderBooks = [(''BTC/USDC'', \<lparr>book_pair = ''BTC/USDC'',
                 bids = \<lparr>priceLevels = [(Finite 49000, \<lparr>price = Finite 49000, orders = [?e1\<lparr>entry_amount := Finite 5\<rparr>],
                                                 totalVolume = Finite 5\<rparr>)],
                          prices = [Finite 51000, Finite 50000, Finite 49000]\<rparr>,
                 asks = \<lparr>priceLevels = [(Finite 49000, \<lparr>price = Finite 49000,
                            orders = [\<lparr>entry_order_id = ''4'', entry_account_id = ''2'',
                                       entry_amount = Finite 25, entry_limit_price = Finite 49000,
                                       entry_timestamp = now 3\<rparr>],
                            totalVolume = Finite 25\<rparr>)],
                          prices = [Finite 49000]\<rparr>\<rparr>)],
              matchingEngine = \<lparr>nextTradeId = 4, reads = 7\<rparr>,
              trades =
                [\<lparr>trade_id = 1, trade_pair = ''BTC/USDC'', maker_order_id = ''3'',
                   taker_order_id = ''4'', maker_account_id = ''1'', taker_account_id = ''2'',
                   trade_amount = Finite 10, trade_price = Finite 51000, trade_timestamp = now 4\<rparr>,
                 \<lparr>trade_id = 2, trade_pair = ''BTC/USDC'', maker_order_id = ''2'',
                   taker_order_id = ''4'', maker_account_id = ''1'', taker_account_id = ''2'',
                   trade_amount = Finite 10, trade_price = Finite 50000, trade_timestamp = now 5\<rparr>,
                 \<lparr>trade_id = 3, trade_pair = ''BTC/USDC'', maker_order_id = ''1'',
                   taker_order_id = ''4'', maker_account_id = ''1'', taker_account_id = ''2'',
                   trade_amount = Finite 5, trade_price = Finite 49000, trade_timestamp = now 6\<rparr>]\<rparr>"
  have 4: "processRawOrder now parseFloatRef DecimalRef (scenarioB ! 3) ?S3 = (None, ?S4)"
    by (simp add: scenarioB_def run_defs)
  have run: "processRawOrders now parseFloatRef DecimalRef scenarioB newOrderBookService = (None, ?S4)"
    using 1 2 3 4 by (simp add: scenarioB_def)
  show ?thesis
    unfolding run
    by (simp add: output_defs)
qed



text \<open>
  C6, as stated, fails: trade and entry timestamps are readings of the wall clock. Under a
  clock that always reads 0 and under one that always reads 1, the same two commands give
  trade logs that differ (in the timestamp of the trade).
\<close>

theorem trade_timestamps_differ_between_runs:
  "getSerializedTrades (snd (processRawOrders (\<lambda>k. 0) parseFloatRef DecimalRef partialFillInput newOrderBookService))
   \<noteq> getSerializedTrades (snd (processRawOrders (\<lambda>k. 1) parseFloatRef DecimalRef partialFillInput newOrderBookService))"
  unfolding partialFill_run by (simp add: output_defs)

text \<open>
  C6, amended. For every batch of raw commands, two runs on fresh services, under any two
  clocks, end with the same error (or none), and their serialized trade logs and
  serialized books agree field for field once the timestamps of trades and entries are
  blanked.
\<close>

theorem outputs_agree_up_to_timestamps:
  "fst (processRawOrders now1 parseFloat Decimal rawOrders newOrderBookService) =
   fst (processRawOrders now2 parseFloat Decimal rawOrders newOrderBookService) \<and>
   map eraseTrade (getSerializedTrades
     (snd (processRawOrders now1 parseFloat Decimal rawOrders newOrderBookService))) =
   map eraseTrade (getSerializedTrades
     (snd (processRawOrders now2 parseFloat Decimal rawOrders newOrderBookService))) \<and>
   eraseSerializedBooks (getSerializedOrderBooks
     (snd (processRawOrders now1 parseFloat Decimal rawOrders newOrderBookService))) =
   eraseSerializedBooks (getSerializedOrderBooks
     (snd (processRawOrders now2 parseFloat Decimal rawOrders newOrderBookService)))"
proof -
  have e: "(fst (processRawOrders now parseFloat Decimal rawOrders newOrderBookService),
            eraseService (snd (processRawOrders now parseFloat Decimal rawOrders newOrderBookService))) =
           processRawOrders (\<lambda>k. 0) parseFloat Decimal rawOrders newOrderBookService" for now
    using processRawOrders_erase [of parseFloat Decimal rawOrders newOrderBookService now] by simp
  from e [of now1] e [of now2]
  have "(fst (processRawOrders now1 parseFloat Decimal rawOrders newOrderBookService),
         eraseService (snd (processRawOrders now1 parseFloat Decimal rawOrders newOrderBookService))) =
        (fst (processRawOrders now2 parseFloat Decimal rawOrders newOrderBookService),
         eraseService (snd (processRawOrders now2 parseFloat Decimal rawOrders newOrderBookService)))"
    by (rule trans [OF _ sym])
  then have "fst (processRawOrders now1 parseFloat Decimal rawOrders newOrderBookService) =
        fst (processRawOrders now2 parseFloat Decimal rawOrders newOrderBookService)"
    and s: "eraseService (snd (processRawOrders now1 parseFloat Decimal rawOrders newOrderBookService)) =
        eraseService (snd (processRawOrders now2 parseFloat Decimal rawOrders newOrderBookService))"
    by simp_all
  moreover from arg_cong [OF s, of trades]
  have "map eraseTrade (trades (snd (processRawOrders now1 parseFloat Decimal rawOrders newOrderBookService))) =
        map eraseTrade (trades (snd (processRawOrders now2 parseFloat Decimal rawOrders newOrderBookService)))"
    by simp
  moreover from arg_cong [OF s, of getSerializedOrderBooks]
  have "eraseSerializedBooks (getSerializedOrderBooks
          (snd (processRawOrders now1 parseFloat Decimal rawOrders newOrderBookService))) =
        eraseSerializedBooks (getSerializedOrderBooks
          (snd (processRawOrders now2 parseFloat Decimal rawOrders newOrderBookService)))"
    by (simp only: getSerializedOrderBooks_erase)
  ultimately show ?thesis
    by (simp only: getSerializedTrades_def simp_thms)
qed

text \<open>
  C7, as stated, fails: the timestamp of a promoted order is the reading of the wall clock,
  so two commands promoted within the same millisecond carry equal timestamps. With a
  clock that reads 1000 at every call, the first two commands of Scenario B are promoted
  with timestamps 1000 and 1000.
\<close>

theorem same_millisecond_same_timestamp:
  "map (\<lambda>d. timestamp (fst d))
     (dispatched (\<lambda>k. 1000) parseFloatRef DecimalRef (take 2 scenarioB) newOrderBookService) =
     [1000, 1000] \<and>
   \<not> sorted_wrt (<)
     (map (\<lambda>d. timestamp (fst d))
        (dispatched (\<lambda>k. 1000) parseFloatRef DecimalRef (take 2 scenarioB) newOrderBookService))"
proof -
  have v: "validateOrder parseFloatRef (scenarioB ! 0) = None"
    "validateOrder parseFloatRef (scenarioB ! 1) = None"
    by (simp_all add: scenarioB_def mkRawOrder_def validateOrder_def parse_defs)
  have c: "createOrder DecimalRef (scenarioB ! 0) ts \<noteq> None"
    "createOrder DecimalRef (scenarioB ! 1) ts \<noteq> None" for ts
    by (simp_all add: scenarioB_def mkRawOrder_def createOrder_def parse_defs)
  have input: "take 2 scenarioB = [scenarioB ! 0, scenarioB ! 1]"
    by (simp add: scenarioB_def)
  have "map (\<lambda>d. timestamp (fst d))
     (dispatched (\<lambda>k. 1000) parseFloatRef DecimalRef (take 2 scenarioB) newOrderBookService) =
     [1000, 1000]"
    unfolding input using v c [of 1000]
    by (auto split: option.splits dest: createOrder_fields)
  then show ?thesis by simp
qed

text \<open>
  C7, amended. The timestamps of the orders a batch dispatches, in dispatch order, are the
  readings \<open>now k\<close> of the clock at strictly increasing read positions \<open>k\<close>: each
  promotion takes a fresh reading of \<open>Date.now()\<close>, later than every reading taken
  before. A later order's timestamp is therefore greater exactly as far as the clock
  itself has advanced.
\<close>

theorem timestamps_are_clock_readings:
  "\<exists>ks. sorted_wrt (<) ks \<and>
        map (\<lambda>d. timestamp (fst d)) (dispatched now parseFloat Decimal rawOrders newOrderBookService) =
          map now ks"
  using dispatched_timestamps [of newOrderBookService now parseFloat Decimal rawOrders] by blast

text \<open>
  C8 (the code departs from the claim). The validator checks that \<open>type_op\<close> is present
  but not which value it has: a command with \<open>type_op = UPDATE\<close> passes validation, is
  promoted and dispatched, raises no error, and leaves a freshly created, empty book for
  its pair in the service.
\<close>

theorem unknown_type_op_accepted:
  "validateOrder parseFloatRef unknownOpInput = None \<and>
   processRawOrder now parseFloatRef DecimalRef unknownOpInput newOrderBookService =
     (None,
      \<lparr>orderBooks = [(''ETH/USDC'', createOrderBook ''ETH/USDC'')],
       matchingEngine = \<lparr>nextTradeId = 1, reads = 1\<rparr>,
       trades = []\<rparr>)"
  by (simp add: unknownOpInput_def run_defs)

text \<open>
  C9. \<open>matchOrder\<close>, for every order, book, engine state and clock: a BUY leaves the bid
  side of the book (price array, level map and every entry) as it was, a SELL leaves the
  ask side as it was, and the book keeps its pair. Only the opposite side is written.
\<close>

theorem matchOrder_keeps_own_side:
  "(case matchOrder now order orderBook eng of
      (trs, order', orderBook', eng') \<Rightarrow>
        (side order = ''BUY'' \<longrightarrow> bids orderBook' = bids orderBook) \<and>
        (side order = ''SELL'' \<longrightarrow> asks orderBook' = asks orderBook) \<and>
        book_pair orderBook' = book_pair orderBook)"
  by (auto simp: matchOrder_def Let_def split: prod.splits)

theorem matchOrder_keeps_own_side_witness:
  "(case matchOrder (\<lambda>k. 0) (createOrderOf ''2'' ''SELL'' 5 50000) (bidsBook [bid ''1''] 10)
           \<lparr>nextTradeId = 1, reads = 0\<rparr> of
      (trs, order', orderBook', eng') \<Rightarrow>
        asks orderBook' = asks (bidsBook [bid ''1''] 10) \<and>
        bids orderBook' \<noteq> bids (bidsBook [bid ''1''] 10) \<and>
        map trade_amount trs = [Finite 5]) \<and>
   (case matchOrder (\<lambda>k. 0) (createOrderOf ''2'' ''BUY'' 5 50000) (bidsBook [bid ''1''] 10)
           \<lparr>nextTradeId = 1, reads = 0\<rparr> of
      (trs, order', orderBook', eng') \<Rightarrow>
        bids orderBook' = bids (bidsBook [bid ''1''] 10) \<and> trs = [])"
  using matchOrder_keeps_own_side [where now = "\<lambda>k. 0" and order = "createOrderOf ''2'' ''SELL'' 5 50000"
      and orderBook = "bidsBook [bid ''1''] 10" and eng = "\<lparr>nextTradeId = 1, reads = 0\<rparr>"]
    matchOrder_keeps_own_side [where now = "\<lambda>k. 0" and order = "createOrderOf ''2'' ''BUY'' 5 50000"
      and orderBook = "bidsBook [bid ''1''] 10" and eng = "\<lparr>nextTradeId = 1, reads = 0\<rparr>"]
  by (simp add: createOrderOf_def bidsBook_def bid_def createOrderBookSide_def run_defs)

text \<open>
  C10, as stated, fails: the validator and the \<open>Decimal\<close> constructor both accept the
  amount \<open>Infinity\<close>. A BUY of \<open>Infinity\<close> rests; a SELL of \<open>Infinity\<close> at the same
  price fills against it with \<open>Infinity - Infinity = NaN\<close> on both sides. The maker's
  new amount \<open>NaN\<close> is neither zero nor below zero, so the maker stays queued with an
  amount that is not strictly positive.
\<close>

theorem infinite_fill_leaves_nan:
  "(case processRawOrders (\<lambda>k. 0) parseFloatRef DecimalRef infiniteFillInput newOrderBookService of
      (err, svc) \<Rightarrow>
        err = None \<and>
        map trade_amount (getSerializedTrades svc) = [Infinity] \<and>
        map (\<lambda>(p, bs, as). map (\<lambda>e. (entry_order_id e, entry_amount e)) bs)
          (getSerializedOrderBooks svc) = [[(''1'', NaN)]] \<and>
        \<not> restingPositive svc)"
proof -
  let ?now = "\<lambda>k::nat. 0::int"
  let ?e1 = "\<lparr>entry_order_id = ''1'', entry_account_id = ''1'', entry_amount = Infinity,
               entry_limit_price = Finite 50000, entry_timestamp = 0\<rparr>"
  let ?e2 = "\<lparr>entry_order_id = ''2'', entry_account_id = ''2'', entry_amount = Infinity,
               entry_limit_price = Finite 50000, entry_timestamp = 0\<rparr>"
  let ?t = "\<lparr>trade_id = 1, trade_pair = ''BTC/USDC'', maker_order_id = ''1'',
              taker_order_id = ''2'', maker_account_id = ''1'', taker_account_id = ''2'',
              trade_amount = Infinity, trade_price = Finite 50000, trade_timestamp = 0\<rparr>"
  let ?S1 = "\<lparr>orderBooks = [(''BTC/USDC'', \<lparr>book_pair = ''BTC/USDC'',
                 bids = \<lparr>priceLevels = [(Finite 50000, \<lparr>price = Finite 50000, orders = [?e1],
                                           totalVolume = Infinity\<rparr>)],
                          prices = [Finite 50000]\<rparr>,
                 asks = \<lparr>priceLevels = [], prices = []\<rparr>\<rparr>)],
              matchingEngine = \<lparr>nextTradeId = 1, reads = 1\<rparr>, trades = []\<rparr>"
  let ?S2 = "\<lparr>orderBooks = [(''BTC/USDC'', \<lparr>book_pair = ''BTC/USDC'',
                 bids = \<lparr>priceLevels = [(Finite 50000, \<lparr>price = Finite 50000,
                            orders = [?e1\<lparr>entry_amount := NaN\<rparr>], totalVolume = NaN\<rparr>)],
                          prices = [Finite 50000]\<rparr>,
                 asks = \<lparr>priceLevels = [(Finite 50000, \<lparr>price = Finite 50000, orders = [?e2],
                                           totalVolume = Infinity\<rparr>)],
                          prices = [Finite 50000]\<rparr>\<rparr>)],
              matchingEngine = \<lparr>nextTradeId = 2, reads = 3\<rparr>, trades = [?t]\<rparr>"
  have 1: "processRawOrder ?now parseFloatRef DecimalRef (infiniteFillInput ! 0) newOrderBookService =
      (None, ?S1)"
    by (simp add: infiniteFillInput_def run_defs)
  have 2: "processRawOrder ?now parseFloatRef DecimalRef (infiniteFillInput ! 1) ?S1 = (None, ?S2)"
    by (simp add: infiniteFillInput_def run_defs numeral_2_eq_2)
  have run: "processRawOrders ?now parseFloatRef DecimalRef infiniteFillInput newOrderBookService =
      (None, ?S2)"
    using 1 2 by (simp add: infiniteFillInput_def)
  show ?thesis
    unfolding run
    by (simp add: output_defs restingPositive_def restingAll_def bookAll_def sideAll_def levelAll_def)
qed

text \<open>
  C10, amended. If no CREATE command of the batch carries an amount (as the \<open>Decimal\<close>
  constructor reads it) above \<open>10^9000000000000000\<close>, the largest power of ten of
  decimal.js (so none is \<open>Infinity\<close>), then after every prefix \<open>take n rawOrders\<close>
  of the batch processed by a fresh service, every entry queued in every price level of
  every book has a finite, strictly positive amount. Matching dequeues a maker in the
  fill that brings its amount to zero, and \<open>handleCreateOrder\<close> rests an order only when
  its amount is positive. Nothing is assumed of the prices or the clock.
\<close>

theorem resting_amounts_positive_in_range:
  assumes "\<forall>raw\<in>set rawOrders. raw_type_op raw = ''CREATE'' \<longrightarrow>
             (\<forall>a. Decimal (raw_amount raw) = Some a \<longrightarrow> \<not> gt a maxAmount)"
  shows "restingPositive (snd (processRawOrders now parseFloat Decimal (take n rawOrders) newOrderBookService)) \<and>
         restingFinite (snd (processRawOrders now parseFloat Decimal (take n rawOrders) newOrderBookService))"
proof -
  from assms have "\<forall>raw\<in>set (take n rawOrders). raw_type_op raw = ''CREATE'' \<longrightarrow>
             (\<forall>a. Decimal (raw_amount raw) = Some a \<longrightarrow> \<not> gt a maxAmount)"
    by (auto dest: in_set_takeD)
  from processRawOrders_range [OF this, of now parseFloat]
  have r: "restingAll (\<lambda>a. gt a ZERO \<and> \<not> gt a maxAmount)
           (snd (processRawOrders now parseFloat Decimal (take n rawOrders) newOrderBookService))" .
  have "isFinite a" if "gt a ZERO \<and> \<not> gt a maxAmount" for a
    using that by (auto elim: within_range simp: isFinite_def)
  from restingAll_mono [of _ isFinite, OF this r] restingAll_mono [of _ "\<lambda>a. gt a ZERO", OF _ r]
  show ?thesis by (simp add: restingPositive_def restingFinite_def)
qed

theorem resting_amounts_positive_in_range_witness:
  "restingPositive (snd (processRawOrders (\<lambda>k. 0) parseFloatRef DecimalRef (take 2 partialFillInput) newOrderBookService)) \<and>
   restingFinite (snd (processRawOrders (\<lambda>k. 0) parseFloatRef DecimalRef (take 2 partialFillInput) newOrderBookService)) \<and>
   map (\<lambda>(p, bs, as). (map entry_amount bs, map entry_amount as))
     (getSerializedOrderBooks
        (snd (processRawOrders (\<lambda>k. 0) parseFloatRef DecimalRef (take 2 partialFillInput) newOrderBookService))) =
     [([Finite 5], [Finite 5])]"
proof -
  have range: "\<forall>raw\<in>set partialFillInput. raw_type_op raw = ''CREATE'' \<longrightarrow>
      (\<forall>a. DecimalRef (raw_amount raw) = Some a \<longrightarrow> \<not> gt a maxAmount)"
    by (simp add: partialFillInput_def mkRawOrder_def parse_defs small_amount)
  have input: "take 2 partialFillInput = partialFillInput"
    by (simp add: partialFillInput_def)
  from resting_amounts_positive_in_range [OF range, of "\<lambda>k. 0" parseFloatRef 2]
  show ?thesis
    unfolding input partialFill_run by (simp add: output_defs)
qed

end
